theory Spec2Isabelle
  imports Main "HOL-Library.AList"
begin

section \<open>Data model (src/types/index.ts)\<close>

text \<open>
  The TypeScript interfaces become records and the string-literal unions become datatypes.
  Constructors carry a prefix because several unions share literals (\<open>"archive"\<close> is both a
  file category and a routing method). Fields whose TypeScript name is an Isabelle keyword or
  a constant of Main are renamed: \<open>id\<close> is \<open>item_id\<close>, \<open>file\<close> is \<open>item_file\<close>,
  \<open>method\<close> is \<open>routing_method\<close>,
  \<open>size\<close> is \<open>size_bytes\<close>. Wall-clock fields (\<open>startedAt\<close>, \<open>completedAt\<close>,
  \<open>duration\<close>) and the cost counters are left out: no control flow reads them.
  JavaScript numbers that count things are \<open>int\<close> (\<open>nat\<close> for sizes of containers).
\<close>

datatype FileCategory =
  C_text | C_code | C_document | C_database | C_archive | C_image | C_html
  | C_video | C_audio | C_unknown

record ScannedFile =
  path :: string
  relativePath :: string
  name :: string
  extension :: string
  size_bytes :: nat
  category :: FileCategory
  courseId :: string
  coursePath :: string

datatype QueueItemStatus =
  S_pending | S_scanning | S_routing | S_processing | S_completed | S_failed | S_skipped

datatype ProcessingStage = G_scan | G_route | G_convert | G_validate | G_generate

datatype RoutingMethod = M_passthrough | M_skill | M_archive | M_skip | M_unsupported

record RoutingDecision =
  routing_method :: RoutingMethod
  skillName :: "string option"
  outputFormat :: "string option"
  metadata :: "(string \<times> string) list"

record ProcessingError =
  code :: string
  message :: string
  recoverable :: bool

record QueueItem =
  item_id :: string
  item_file :: ScannedFile
  status :: QueueItemStatus
  stage :: ProcessingStage
  priority :: int
  attempts :: int
  maxAttempts :: int
  routedTo :: "RoutingDecision option"
  outputPath :: "string option"
  error :: "ProcessingError option"

text \<open>
  A \<open>ProcessingResult\<close> refers to its queue item by reference; the reference is the
  item's id.
\<close>

record ProcessingResult =
  queueItem :: string
  success :: bool
  result_outputPath :: "string option"
  warnings :: "string list"

record QueueStats =
  st_total :: nat
  st_pending :: nat
  st_processing :: nat
  st_completed :: nat
  st_failed :: nat
  st_skipped :: nat

section \<open>JavaScript containers and number formatting\<close>

text \<open>
  A JavaScript \<open>Set\<close> keeps its members in insertion order without duplicates:
  \<open>add\<close> of a member is a no-op, \<open>delete\<close> removes the member, \<open>size\<close> is the length.
  A \<open>Map\<close> is an association list: \<open>set\<close> overwrites in place or appends
  (\<open>AList.update\<close>), \<open>size\<close> is the length.
\<close>

definition set_add :: "'a \<Rightarrow> 'a list \<Rightarrow> 'a list" where
  "set_add x xs = (if x \<in> set xs then xs else xs @ [x])"

definition set_delete :: "'a \<Rightarrow> 'a list \<Rightarrow> 'a list" where
  "set_delete x xs = removeAll x xs"

definition map_set :: "'k \<Rightarrow> 'v \<Rightarrow> ('k \<times> 'v) list \<Rightarrow> ('k \<times> 'v) list" where
  "map_set k v m = AList.update k v m"

definition digit_char :: "nat \<Rightarrow> char" where
  "digit_char d = ''0123456789'' ! d"

function show_nat :: "nat \<Rightarrow> string" where
  "show_nat n = (if n < 10 then [digit_char n] else show_nat (n div 10) @ [digit_char (n mod 10)])"
  by pat_completeness auto
termination
  by (relation "measure id") auto

declare show_nat.simps [simp del]

definition show_int :: "int \<Rightarrow> string" where
  "show_int i = (if i < 0 then CHR ''-'' # show_nat (nat (- i)) else show_nat (nat i))"

section \<open>AsyncQueue (src/queue/async-queue.ts)\<close>

text \<open>
  The queue's fields. A waiter is the \<open>resolve\<close> callback of a pending \<open>dequeue()\<close>
  promise; it is identified by the caller that is suspended on it. Calling a waiter is
  recorded as a delivery \<open>(caller, value)\<close>, returned by the operation that made the call.
\<close>

record AsyncQueue =
  items :: "QueueItem list"
  processing :: "string list"
  completed :: "(string \<times> QueueItem) list"
  failed :: "(string \<times> QueueItem) list"
  skipped :: "(string \<times> QueueItem) list"
  closed :: bool
  waiters :: "nat list"
  maxConcurrent :: nat

type_synonym delivery = "nat \<times> QueueItem option"

datatype queue_error = QueueClosed

datatype dequeue_result = Resolved "QueueItem option" | StillPending

definition new_AsyncQueue :: "nat \<Rightarrow> AsyncQueue" where
  "new_AsyncQueue n =
     \<lparr>items = [], processing = [], completed = [], failed = [], skipped = [],
      closed = False, waiters = [], maxConcurrent = n\<rparr>"

text \<open>
  \<open>this.items.sort((a, b) => a.priority - b.priority)\<close>: the sort of the language is
  stable, and for integer priorities the comparator is a total preorder, so the result is
  the stable sort by the priority key.
\<close>

definition sort_items :: "QueueItem list \<Rightarrow> QueueItem list" where
  "sort_items xs = sort_key priority xs"

function notifyWaiters :: "AsyncQueue \<Rightarrow> AsyncQueue \<times> delivery list" where
  "notifyWaiters q =
     (if waiters q \<noteq> [] \<and> items q \<noteq> [] \<and> length (processing q) < maxConcurrent q
      then (case notifyWaiters
                   (q\<lparr>waiters := tl (waiters q), items := tl (items q),
                      processing := set_add (item_id (hd (items q))) (processing q)\<rparr>) of
              (q', ds) \<Rightarrow> (q', (hd (waiters q), Some (hd (items q))) # ds))
      else (q, []))"
  by pat_completeness auto
termination
  by (relation "measure (\<lambda>q. length (items q))") auto

declare notifyWaiters.simps [simp del]

definition enqueue :: "QueueItem \<Rightarrow> AsyncQueue \<Rightarrow> queue_error + AsyncQueue \<times> delivery list" where
  "enqueue item q =
     (if closed q then Inl QueueClosed
      else Inr (notifyWaiters (q\<lparr>items := sort_items (items q @ [item])\<rparr>)))"

definition enqueueMany :: "QueueItem list \<Rightarrow> AsyncQueue \<Rightarrow> queue_error + AsyncQueue \<times> delivery list" where
  "enqueueMany new_items q =
     (if closed q then Inl QueueClosed
      else Inr (notifyWaiters (q\<lparr>items := sort_items (items q @ new_items)\<rparr>)))"

definition dequeue :: "nat \<Rightarrow> AsyncQueue \<Rightarrow> dequeue_result \<times> AsyncQueue" where
  "dequeue caller q =
     (if closed q \<and> items q = [] then (Resolved None, q)
      else if items q \<noteq> [] \<and> length (processing q) < maxConcurrent q
      then (Resolved (Some (hd (items q))),
            q\<lparr>items := tl (items q),
              processing := set_add (item_id (hd (items q))) (processing q)\<rparr>)
      else if closed q then (Resolved None, q)
      else (StillPending, q\<lparr>waiters := waiters q @ [caller]\<rparr>))"

definition markCompleted :: "QueueItem \<Rightarrow> AsyncQueue \<Rightarrow> AsyncQueue \<times> delivery list" where
  "markCompleted item q =
     notifyWaiters
       (q\<lparr>processing := set_delete (item_id item) (processing q),
          completed := map_set (item_id item) (item\<lparr>status := S_completed\<rparr>) (completed q)\<rparr>)"

definition markFailed :: "QueueItem \<Rightarrow> string \<times> string \<Rightarrow> AsyncQueue \<Rightarrow> AsyncQueue \<times> delivery list" where
  "markFailed item err q =
     notifyWaiters
       (q\<lparr>processing := set_delete (item_id item) (processing q),
          failed := map_set (item_id item)
                      (item\<lparr>status := S_failed,
                            error := Some \<lparr>code = fst err, message = snd err, recoverable = False\<rparr>\<rparr>)
                      (failed q)\<rparr>)"

definition markSkipped :: "QueueItem \<Rightarrow> string \<Rightarrow> AsyncQueue \<Rightarrow> AsyncQueue \<times> delivery list" where
  "markSkipped item reason q =
     notifyWaiters
       (q\<lparr>processing := set_delete (item_id item) (processing q),
          skipped := map_set (item_id item)
                       (item\<lparr>status := S_skipped,
                             error := Some \<lparr>code = ''SKIPPED'', message = reason, recoverable = False\<rparr>\<rparr>)
                       (skipped q)\<rparr>)"

definition requeue :: "QueueItem \<Rightarrow> AsyncQueue \<Rightarrow> AsyncQueue \<times> delivery list" where
  "requeue item q =
     (let q1 = q\<lparr>processing := set_delete (item_id item) (processing q)\<rparr>;
          item1 = item\<lparr>attempts := attempts item + 1\<rparr>;
          r = (if attempts item1 < maxAttempts item1
               then (q1\<lparr>items := sort_items (items q1 @ [item1\<lparr>status := S_pending\<rparr>])\<rparr>, [])
               else markFailed item1
                      (''MAX_ATTEMPTS'',
                       ''Exceeded max attempts ('' @ show_int (maxAttempts item1) @ '')'') q1);
          r' = notifyWaiters (fst r)
      in (fst r', snd r @ snd r'))"

definition getStats :: "AsyncQueue \<Rightarrow> QueueStats" where
  "getStats q =
     \<lparr>st_total = length (items q) + length (processing q) + length (completed q)
                 + length (failed q) + length (skipped q),
      st_pending = length (items q),
      st_processing = length (processing q),
      st_completed = length (completed q),
      st_failed = length (failed q),
      st_skipped = length (skipped q)\<rparr>"

definition isEmpty :: "AsyncQueue \<Rightarrow> bool" where
  "isEmpty q = (items q = [] \<and> processing q = [])"

definition isComplete :: "AsyncQueue \<Rightarrow> bool" where
  "isComplete q = (closed q \<and> isEmpty q)"

definition close :: "AsyncQueue \<Rightarrow> AsyncQueue \<times> delivery list" where
  "close q = (q\<lparr>closed := True, waiters := []\<rparr>, map (\<lambda>w. (w, None)) (waiters q))"

text \<open>The public operations as one datatype, and the state each leaves behind.\<close>

datatype queue_op =
  Enqueue QueueItem
  | EnqueueMany "QueueItem list"
  | Dequeue nat
  | MarkCompleted QueueItem
  | MarkFailed QueueItem "string \<times> string"
  | MarkSkipped QueueItem string
  | Requeue QueueItem
  | Close

fun exec_op :: "queue_op \<Rightarrow> AsyncQueue \<Rightarrow> AsyncQueue" where
  "exec_op (Enqueue item) q = (case enqueue item q of Inl e \<Rightarrow> q | Inr r \<Rightarrow> fst r)"
| "exec_op (EnqueueMany xs) q = (case enqueueMany xs q of Inl e \<Rightarrow> q | Inr r \<Rightarrow> fst r)"
| "exec_op (Dequeue caller) q = snd (dequeue caller q)"
| "exec_op (MarkCompleted item) q = fst (markCompleted item q)"
| "exec_op (MarkFailed item err) q = fst (markFailed item err q)"
| "exec_op (MarkSkipped item reason) q = fst (markSkipped item reason q)"
| "exec_op (Requeue item) q = fst (requeue item q)"
| "exec_op Close q = fst (close q)"

definition exec_ops :: "queue_op list \<Rightarrow> AsyncQueue \<Rightarrow> AsyncQueue" where
  "exec_ops ops q = foldl (\<lambda>s op. exec_op op s) q ops"

section \<open>WorkerPool (src/queue/worker-pool.ts)\<close>

text \<open>
  The pool runs its worker loops cooperatively on one thread: a loop runs without
  interruption from one \<open>await\<close> to the next. A loop is therefore in one of four places:
  suspended on a \<open>dequeue()\<close> promise that has no value yet, holding a settled
  \<open>dequeue()\<close> promise whose continuation has not run yet, inside the processor call, or
  past the end of the loop. The processor is a function of the item it is called with;
  it either fulfils with a result, having possibly written fields of the item (the worker
  loop reads \<open>item.error\<close> afterwards), or it rejects with a message.
  The progress callback has no effect on the pool and is left out.
\<close>

datatype worker = Suspended | Settled "QueueItem option" | InProcessor QueueItem | Exited

datatype processor_outcome = Fulfilled ProcessingResult QueueItem | Rejected string

record WorkerPool =
  queue :: AsyncQueue
  workers :: "worker list"
  results :: "ProcessingResult list"
  running :: bool
  workerCount :: nat
  processor :: "QueueItem \<Rightarrow> processor_outcome"
  awaitingCompletion :: bool

definition new_WorkerPool :: "nat \<Rightarrow> (QueueItem \<Rightarrow> processor_outcome) \<Rightarrow> WorkerPool" where
  "new_WorkerPool n f =
     \<lparr>queue = new_AsyncQueue n, workers = [], results = [], running = False,
      workerCount = n, processor = f, awaitingCompletion = False\<rparr>"

definition deliver :: "delivery list \<Rightarrow> worker list \<Rightarrow> worker list" where
  "deliver ds ws = foldl (\<lambda>acc d. acc[fst d := Settled (snd d)]) ws ds"

definition submit :: "QueueItem \<Rightarrow> WorkerPool \<Rightarrow> queue_error + WorkerPool" where
  "submit item p =
     (case enqueue item (queue p) of
        Inl e \<Rightarrow> Inl e
      | Inr r \<Rightarrow> Inr (p\<lparr>queue := fst r, workers := deliver (snd r) (workers p)\<rparr>))"

definition submitMany :: "QueueItem list \<Rightarrow> WorkerPool \<Rightarrow> queue_error + WorkerPool" where
  "submitMany xs p =
     (case enqueueMany xs (queue p) of
        Inl e \<Rightarrow> Inl e
      | Inr r \<Rightarrow> Inr (p\<lparr>queue := fst r, workers := deliver (snd r) (workers p)\<rparr>))"

text \<open>
  \<open>workerLoop\<close>, cut at its two \<open>await\<close>s. \<open>loop_head\<close> is the loop test and the
  call of \<open>dequeue()\<close>; \<open>resume\<close> continues after the dequeue promise has settled, up to
  the call of the processor; \<open>finish\<close> continues after the processor has settled: it
  updates the queue, records the result, and runs into the next \<open>loop_head\<close>.
\<close>

definition loop_head :: "nat \<Rightarrow> WorkerPool \<Rightarrow> WorkerPool" where
  "loop_head i p =
     (if running p
      then (case dequeue i (queue p) of
              (Resolved r, q') \<Rightarrow> p\<lparr>queue := q', workers := (workers p)[i := Settled r]\<rparr>
            | (StillPending, q') \<Rightarrow> p\<lparr>queue := q', workers := (workers p)[i := Suspended]\<rparr>)
      else p\<lparr>workers := (workers p)[i := Exited]\<rparr>)"

definition resume :: "nat \<Rightarrow> WorkerPool \<Rightarrow> WorkerPool" where
  "resume i p =
     (if i < length (workers p)
      then (case workers p ! i of
              Settled None \<Rightarrow> p\<lparr>workers := (workers p)[i := Exited]\<rparr>
            | Settled (Some item) \<Rightarrow>
                p\<lparr>workers := (workers p)[i := InProcessor (item\<lparr>status := S_processing\<rparr>)]\<rparr>
            | _ \<Rightarrow> p)
      else p)"

definition settle :: "QueueItem \<Rightarrow> processor_outcome \<Rightarrow> ProcessingResult \<times> QueueItem" where
  "settle item out =
     (case out of
        Fulfilled r item' \<Rightarrow> (r, item')
      | Rejected msg \<Rightarrow>
          (\<lparr>queueItem = item_id item, success = False, result_outputPath = None, warnings = []\<rparr>,
           item\<lparr>error := Some \<lparr>code = ''PROCESSOR_ERROR'', message = msg, recoverable = False\<rparr>\<rparr>))"

definition update_queue :: "ProcessingResult \<Rightarrow> QueueItem \<Rightarrow> AsyncQueue \<Rightarrow> AsyncQueue \<times> delivery list" where
  "update_queue result item q =
     (if success result then markCompleted item q
      else if (case error item of Some e \<Rightarrow> recoverable e | None \<Rightarrow> False)
              \<and> attempts item < maxAttempts item
      then requeue item q
      else markFailed item
             (case error item of Some e \<Rightarrow> (code e, message e)
                               | None \<Rightarrow> (''UNKNOWN'', ''Unknown error'')) q)"

definition finish :: "nat \<Rightarrow> WorkerPool \<Rightarrow> WorkerPool" where
  "finish i p =
     (if i < length (workers p)
      then (case workers p ! i of
              InProcessor item \<Rightarrow>
                (let s = settle item (processor p item);
                     u = update_queue (fst s) (snd s) (queue p)
                 in loop_head i
                      (p\<lparr>queue := fst u, workers := deliver (snd u) (workers p),
                         results := results p @ [fst s]\<rparr>))
            | _ \<Rightarrow> p)
      else p)"

definition spawn :: "WorkerPool \<Rightarrow> WorkerPool" where
  "spawn p = loop_head (length (workers p)) (p\<lparr>workers := workers p @ [Exited]\<rparr>)"

definition start :: "WorkerPool \<Rightarrow> WorkerPool" where
  "start p = (if running p then p else (spawn ^^ workerCount p) (p\<lparr>running := True\<rparr>))"

definition close_queue :: "WorkerPool \<Rightarrow> WorkerPool" where
  "close_queue p =
     (let r = close (queue p) in p\<lparr>queue := fst r, workers := deliver (snd r) (workers p)\<rparr>)"

definition all_exited :: "WorkerPool \<Rightarrow> bool" where
  "all_exited p = list_all (\<lambda>w. w = Exited) (workers p)"

text \<open>
  \<open>waitForCompletion\<close> closes the queue at once and continues when every worker promise
  has settled: then it clears \<open>running\<close> and returns \<open>this.results\<close>.
  \<open>shutdown\<close> clears \<open>running\<close> first and closes the queue.
\<close>

definition waitForCompletion_begin :: "WorkerPool \<Rightarrow> WorkerPool" where
  "waitForCompletion_begin p = (close_queue p)\<lparr>awaitingCompletion := True\<rparr>"

definition waitForCompletion_return :: "WorkerPool \<Rightarrow> (ProcessingResult list \<times> WorkerPool) option" where
  "waitForCompletion_return p =
     (if awaitingCompletion p \<and> all_exited p
      then Some (results p, p\<lparr>running := False, awaitingCompletion := False\<rparr>)
      else None)"

definition shutdown :: "WorkerPool \<Rightarrow> WorkerPool" where
  "shutdown p = close_queue (p\<lparr>running := False\<rparr>)"

text \<open>
  What can happen to a pool, one uninterrupted piece of code at a time. An event that is
  not enabled (a worker index with nothing to continue, a submit on a closed queue, whose
  exception leaves the pool as it was) changes nothing.
\<close>

datatype event =
  Submit QueueItem
  | SubmitMany "QueueItem list"
  | Start
  | Resume nat
  | Finish nat
  | WaitForCompletion
  | CompletionReturns
  | Shutdown

fun step :: "event \<Rightarrow> WorkerPool \<Rightarrow> WorkerPool" where
  "step (Submit item) p = (case submit item p of Inl e \<Rightarrow> p | Inr p' \<Rightarrow> p')"
| "step (SubmitMany xs) p = (case submitMany xs p of Inl e \<Rightarrow> p | Inr p' \<Rightarrow> p')"
| "step Start p = start p"
| "step (Resume i) p = resume i p"
| "step (Finish i) p = finish i p"
| "step WaitForCompletion p = waitForCompletion_begin p"
| "step CompletionReturns p = (case waitForCompletion_return p of None \<Rightarrow> p | Some r \<Rightarrow> snd r)"
| "step Shutdown p = shutdown p"

definition run :: "event list \<Rightarrow> WorkerPool \<Rightarrow> WorkerPool" where
  "run es p = foldl (\<lambda>s e. step e s) p es"

text \<open>
  The items the worker loops receive from \<open>dequeue()\<close> along a run, in order: worker
  \<open>i\<close> receives an item when its loop continues on a promise settled with that item.
\<close>

fun received :: "event \<Rightarrow> WorkerPool \<Rightarrow> QueueItem list" where
  "received (Resume i) p =
     (if i < length (workers p)
      then (case workers p ! i of Settled (Some item) \<Rightarrow> [item] | _ \<Rightarrow> [])
      else [])"
| "received _ p = []"

fun acquired :: "event list \<Rightarrow> WorkerPool \<Rightarrow> QueueItem list" where
  "acquired [] p = []"
| "acquired (e # es) p = received e p @ acquired es (step e p)"

section \<open>Strings and paths (the language's string methods and \<open>node:path\<close>, POSIX flavour)\<close>

text \<open>
  Strings are byte strings; \<open>toLowerCase\<close> maps the ASCII capitals. The path functions
  follow the POSIX implementation of \<open>node:path\<close>: \<open>normalizeString\<close> walks the segments
  between slashes, dropping empty and \<open>.\<close> segments and resolving \<open>..\<close>;
  \<open>resolve\<close> and \<open>relative\<close> read the working directory of the process, which is an
  explicit argument here, given by its directory names from the root;
  \<open>basename\<close> and \<open>extname\<close> look at the last component, ignoring trailing slashes.
\<close>

definition slash :: char where
  "slash = CHR ''/''"

definition dot :: char where
  "dot = CHR ''.''"

definition startsWith :: "string \<Rightarrow> string \<Rightarrow> bool" where
  "startsWith s pre = (take (length pre) s = pre)"

definition endsWith :: "string \<Rightarrow> string \<Rightarrow> bool" where
  "endsWith s suf = (length suf \<le> length s \<and> drop (length s - length suf) s = suf)"

definition lower_char :: "char \<Rightarrow> char" where
  "lower_char c =
     (case map_of (zip ''ABCDEFGHIJKLMNOPQRSTUVWXYZ'' ''abcdefghijklmnopqrstuvwxyz'') c of
        Some d \<Rightarrow> d | None \<Rightarrow> c)"

definition toLowerCase :: "string \<Rightarrow> string" where
  "toLowerCase s = map lower_char s"

fun split_on :: "char \<Rightarrow> string \<Rightarrow> string list" where
  "split_on c [] = [[]]"
| "split_on c (x # xs) =
     (if x = c then [] # split_on c xs
      else (case split_on c xs of [] \<Rightarrow> [[x]] | s # ss \<Rightarrow> (x # s) # ss))"

fun join_with :: "char \<Rightarrow> string list \<Rightarrow> string" where
  "join_with c [] = []"
| "join_with c [s] = s"
| "join_with c (s # t # ss) = s @ c # join_with c (t # ss)"

definition normalize_step :: "bool \<Rightarrow> string list \<Rightarrow> string \<Rightarrow> string list" where
  "normalize_step allowAboveRoot res seg =
     (if seg = [] \<or> seg = ''.'' then res
      else if seg = ''..''
      then (if res \<noteq> [] \<and> last res \<noteq> ''..'' then butlast res
            else if allowAboveRoot then res @ [''..''] else res)
      else res @ [seg])"

definition normalize_segments :: "string \<Rightarrow> bool \<Rightarrow> string list" where
  "normalize_segments p allowAboveRoot = foldl (normalize_step allowAboveRoot) [] (split_on slash p)"

definition normalizeString :: "string \<Rightarrow> bool \<Rightarrow> string" where
  "normalizeString p allowAboveRoot = join_with slash (normalize_segments p allowAboveRoot)"

definition isAbsolute :: "string \<Rightarrow> bool" where
  "isAbsolute p = (p \<noteq> [] \<and> hd p = slash)"

definition normalize :: "string \<Rightarrow> string" where
  "normalize p =
     (if p = [] then ''.''
      else (let trailingSeparator = (last p = slash);
                n = normalizeString p (\<not> isAbsolute p)
            in if n = []
               then (if isAbsolute p then ''/'' else if trailingSeparator then ''./'' else ''.'')
               else (if isAbsolute p then [slash] else []) @ n
                      @ (if trailingSeparator then [slash] else [])))"

definition path_join :: "string list \<Rightarrow> string" where
  "path_join args =
     (let parts = filter (\<lambda>a. a \<noteq> []) args
      in if parts = [] then ''.'' else normalize (join_with slash parts))"

definition cwd_string :: "string list \<Rightarrow> string" where
  "cwd_string dirs = (if dirs = [] then ''/'' else concat (map (\<lambda>d. slash # d) dirs))"

definition resolve_segments :: "string list \<Rightarrow> string \<Rightarrow> string list" where
  "resolve_segments cwd p =
     (if isAbsolute p then normalize_segments (p @ ''/'') False
      else normalize_segments (cwd_string cwd @ ''/'' @ (if p = [] then [] else p @ ''/'')) False)"

definition resolve :: "string list \<Rightarrow> string \<Rightarrow> string" where
  "resolve cwd p = slash # join_with slash (resolve_segments cwd p)"

fun drop_common :: "string list \<Rightarrow> string list \<Rightarrow> string list \<times> string list" where
  "drop_common (a # as) (b # bs) = (if a = b then drop_common as bs else (a # as, b # bs))"
| "drop_common as bs = (as, bs)"

definition relative :: "string list \<Rightarrow> string \<Rightarrow> string \<Rightarrow> string" where
  "relative cwd from to =
     (if from = to then []
      else (let rest = drop_common (resolve_segments cwd from) (resolve_segments cwd to)
            in join_with slash (replicate (length (fst rest)) ''..'' @ snd rest)))"

definition dirname :: "string \<Rightarrow> string" where
  "dirname p =
     (if p = [] then ''.''
      else (let r = dropWhile (\<lambda>c. c \<noteq> slash) (dropWhile (\<lambda>c. c = slash) (rev (tl p)))
            in if r = [] then (if hd p = slash then ''/'' else ''.'')
               else if hd p = slash \<and> tl r = [] then ''//''
               else hd p # rev (tl r)))"

definition trailing_slashes :: "string \<Rightarrow> string" where
  "trailing_slashes p = takeWhile (\<lambda>c. c = slash) (rev p)"

definition last_component :: "string \<Rightarrow> string" where
  "last_component p =
     rev (takeWhile (\<lambda>c. c \<noteq> slash) (dropWhile (\<lambda>c. c = slash) (rev p)))"

definition basename :: "string \<Rightarrow> string \<Rightarrow> string" where
  "basename p suffix =
     (let comp = last_component p
      in if suffix \<noteq> [] \<and> length suffix \<le> length p
         then (if suffix = p then []
               else if comp = [] then p
               else if endsWith comp suffix
               then (if suffix = comp then comp else take (length comp - length suffix) comp)
               else if endsWith suffix comp then comp @ trailing_slashes p
               else comp)
         else comp)"

definition extname :: "string \<Rightarrow> string" where
  "extname p =
     (let comp = last_component p;
          ext = dot # rev (takeWhile (\<lambda>c. c \<noteq> dot) (rev comp))
      in if dot \<notin> set comp then []
         else if length ext = length comp then []
         else if comp = ''..'' then []
         else ext)"

section \<open>Extension tables (src/core/constants.ts)\<close>

text \<open>
  \<open>FILE_EXTENSIONS\<close> in the order of its keys; the two \<open>Set\<close>s are built by adding the
  spread arrays element by element; \<open>SKILL_MAPPINGS\<close> maps an extension to its skill and
  output format.
\<close>

definition FILE_EXTENSIONS :: "(FileCategory \<times> string list) list" where
  "FILE_EXTENSIONS =
     [(C_text, [''.txt'', ''.md'', ''.csv'', ''.json'', ''.xml'', ''.srt'', ''.vtt'', ''.yaml'',
                ''.yml'', ''.toml'', ''.ini'', ''.cfg'', ''.conf'']),
      (C_code, [''.ts'', ''.tsx'', ''.js'', ''.jsx'', ''.py'', ''.java'', ''.c'', ''.cpp'', ''.h'',
                ''.hpp'', ''.cs'', ''.go'', ''.rs'', ''.rb'', ''.php'', ''.swift'', ''.kt'',
                ''.scala'', ''.lua'', ''.sh'', ''.bash'', ''.ps1'', ''.bat'', ''.cmd'', ''.sql'',
                ''.r'', ''.m'', ''.f90'', ''.asm'', ''.s'', ''.pl'', ''.pm'', ''.tcl'', ''.vim'',
                ''.el'', ''.clj'', ''.ex'', ''.exs'', ''.erl'', ''.hs'', ''.ml'', ''.fs'', ''.v'',
                ''.sv'', ''.vhd'', ''.vhdl'']),
      (C_document, [''.pdf'', ''.docx'', ''.doc'', ''.pptx'', ''.ppt'', ''.xlsx'', ''.xls'',
                    ''.odt'', ''.ods'', ''.odp'']),
      (C_database, [''.db'', ''.sqlite'', ''.sqlite3'', ''.mdb'', ''.accdb'', ''.dbf'', ''.h2'']),
      (C_archive, [''.zip'', ''.rar'', ''.7z'', ''.tar'', ''.gz'', ''.tgz'', ''.bz2'', ''.xz'',
                   ''.tar.gz'', ''.tar.bz2'', ''.tar.xz'']),
      (C_image, [''.png'', ''.jpg'', ''.jpeg'', ''.gif'', ''.bmp'', ''.tiff'', ''.tif'', ''.webp'',
                 ''.svg'']),
      (C_html, [''.html'', ''.htm'', ''.xhtml'', ''.mhtml'']),
      (C_video, [''.mp4'', ''.mkv'', ''.avi'', ''.mov'', ''.wmv'', ''.flv'', ''.webm'', ''.m4v'',
                 ''.mpeg'', ''.mpg'', ''.3gp'']),
      (C_audio, [''.mp3'', ''.wav'', ''.flac'', ''.aac'', ''.ogg'', ''.wma'', ''.m4a'', ''.opus'',
                 ''.aiff'']),
      (C_unknown, [])]"

definition extensions_of :: "FileCategory \<Rightarrow> string list" where
  "extensions_of c = (case map_of FILE_EXTENSIONS c of Some xs \<Rightarrow> xs | None \<Rightarrow> [])"

definition SKIP_EXTENSIONS :: "string list" where
  "SKIP_EXTENSIONS = fold set_add (extensions_of C_video @ extensions_of C_audio) []"

definition TEXT_EXTENSIONS :: "string list" where
  "TEXT_EXTENSIONS = fold set_add (extensions_of C_text @ extensions_of C_code) []"

definition SKILL_MAPPINGS :: "(string \<times> string \<times> string) list" where
  "SKILL_MAPPINGS =
     [(''.pdf'', ''pdf'', ''.md''),
      (''.docx'', ''docx'', ''.md''),
      (''.doc'', ''docx'', ''.md''),
      (''.pptx'', ''pptx'', ''.md''),
      (''.ppt'', ''pptx'', ''.md''),
      (''.xlsx'', ''xlsx-processor'', ''.csv''),
      (''.xls'', ''xlsx-processor'', ''.csv''),
      (''.db'', ''db-identify'', ''.csv''),
      (''.sqlite'', ''db-identify'', ''.csv''),
      (''.sqlite3'', ''db-identify'', ''.csv''),
      (''.mdb'', ''db-identify'', ''.csv''),
      (''.accdb'', ''db-identify'', ''.csv''),
      (''.html'', ''html2markdown'', ''.md''),
      (''.htm'', ''html2markdown'', ''.md''),
      (''.png'', ''image-ocr'', ''.txt''),
      (''.jpg'', ''image-ocr'', ''.txt''),
      (''.jpeg'', ''image-ocr'', ''.txt''),
      (''.gif'', ''image-ocr'', ''.txt''),
      (''.bmp'', ''image-ocr'', ''.txt''),
      (''.tiff'', ''image-ocr'', ''.txt''),
      (''.tif'', ''image-ocr'', ''.txt''),
      (''.zip'', ''archive-extractor'', ''directory''),
      (''.rar'', ''archive-extractor'', ''directory''),
      (''.7z'', ''archive-extractor'', ''directory''),
      (''.tar'', ''archive-extractor'', ''directory''),
      (''.gz'', ''archive-extractor'', ''directory''),
      (''.tgz'', ''archive-extractor'', ''directory''),
      (''.tar.gz'', ''archive-extractor'', ''directory''),
      (''.tar.bz2'', ''archive-extractor'', ''directory'')]"

section \<open>Routing by extension (src/routing/skill-registry.ts, src/routing/file-router.ts)\<close>

text \<open>
  \<open>SKILL_MAPPINGS[ext]\<close> is a property read on an object literal: a key that is not in
  the table but names a property of \<open>Object.prototype\<close> yields that inherited value, which
  is truthy and has neither a \<open>skill\<close> nor an \<open>outputFormat\<close>.
\<close>

definition object_prototype_keys :: "string list" where
  "object_prototype_keys =
     [''constructor'', ''__defineGetter__'', ''__defineSetter__'', ''hasOwnProperty'',
      ''__lookupGetter__'', ''__lookupSetter__'', ''isPrototypeOf'', ''propertyIsEnumerable'',
      ''toString'', ''valueOf'', ''__proto__'', ''toLocaleString'']"

definition SKILL_MAPPINGS_get :: "string \<Rightarrow> (string option \<times> string option) option" where
  "SKILL_MAPPINGS_get ext =
     (case map_of SKILL_MAPPINGS ext of
        Some m \<Rightarrow> Some (Some (fst m), Some (snd m))
      | None \<Rightarrow> if ext \<in> set object_prototype_keys then Some (None, None) else None)"

definition getRoutingDecision :: "string \<Rightarrow> RoutingDecision" where
  "getRoutingDecision extension_arg =
     (let ext = toLowerCase extension_arg
      in if ext \<in> set SKIP_EXTENSIONS
         then \<lparr>routing_method = M_skip, skillName = None, outputFormat = None,
               metadata = [(''reason'', ''Video/audio files are skipped'')]\<rparr>
         else if ext \<in> set TEXT_EXTENSIONS
         then \<lparr>routing_method = M_passthrough, skillName = None, outputFormat = Some ext,
               metadata = []\<rparr>
         else (case SKILL_MAPPINGS_get ext of
                 Some mapping \<Rightarrow>
                   (if snd mapping = Some ''directory''
                    then \<lparr>routing_method = M_archive, skillName = fst mapping,
                          outputFormat = snd mapping, metadata = []\<rparr>
                    else \<lparr>routing_method = M_skill, skillName = fst mapping,
                          outputFormat = snd mapping, metadata = []\<rparr>)
               | None \<Rightarrow>
                   \<lparr>routing_method = M_unsupported, skillName = None, outputFormat = None,
                    metadata = [(''extension'', ext)]\<rparr>))"

definition routeByExtension :: "ScannedFile \<Rightarrow> RoutingDecision" where
  "routeByExtension f = getRoutingDecision (extension f)"

section \<open>Scanner (src/scanner/scanner.ts)\<close>

text \<open>
  The directory tree under the scanned path: a regular file with its size, a directory
  with its entries in \<open>readdirSync\<close> order, a directory that \<open>readdirSync\<close> cannot read,
  an entry that is neither file nor directory, and an entry on which \<open>statSync\<close> throws.
  A compiled exclude pattern is its \<open>test\<close> function. Next to the patterns the scanner
  record carries the working directory of the process, which \<open>relative\<close> reads when it
  computes \<open>relativePath\<close>. An option that is left undefined counts as false.
  \<open>scanRecursive\<close> returns the files it pushes, in order.
\<close>

datatype fs_node =
  FsFile nat
  | FsDir "(string \<times> fs_node) list"
  | FsUnreadableDir
  | FsOther
  | FsBroken

record ScanOptions =
  recursive :: bool
  includeHidden :: bool

definition default_ScanOptions :: ScanOptions where
  "default_ScanOptions = \<lparr>recursive = True, includeHidden = False\<rparr>"

record Scanner =
  excludePatterns :: "(string \<Rightarrow> bool) list"
  process_cwd :: "string list"

definition shouldExclude :: "Scanner \<Rightarrow> string \<Rightarrow> bool" where
  "shouldExclude sc p = list_ex (\<lambda>pattern. pattern p) (excludePatterns sc)"

definition getExtension :: "string \<Rightarrow> string" where
  "getExtension filename =
     (case find (\<lambda>ext. endsWith (toLowerCase filename) ext) [''.tar.gz'', ''.tar.bz2'', ''.tar.xz''] of
        Some ext \<Rightarrow> ext
      | None \<Rightarrow> toLowerCase (extname filename))"

definition categorizeFile :: "string \<Rightarrow> FileCategory" where
  "categorizeFile ext =
     (case find (\<lambda>entry. ext \<in> set (snd entry)) FILE_EXTENSIONS of
        Some entry \<Rightarrow> fst entry
      | None \<Rightarrow> C_unknown)"

fun scanRecursive ::
    "Scanner \<Rightarrow> ScanOptions \<Rightarrow> string \<Rightarrow> string \<Rightarrow> string \<Rightarrow> fs_node \<Rightarrow> ScannedFile list"
  and scanEntries ::
    "Scanner \<Rightarrow> ScanOptions \<Rightarrow> string \<Rightarrow> string \<Rightarrow> string \<Rightarrow> (string \<times> fs_node) list
       \<Rightarrow> ScannedFile list"
where
  "scanRecursive sc opts cid croot currentPath (FsDir entries) =
     scanEntries sc opts cid croot currentPath entries"
| "scanRecursive sc opts cid croot currentPath (FsFile n) = []"
| "scanRecursive sc opts cid croot currentPath FsUnreadableDir = []"
| "scanRecursive sc opts cid croot currentPath FsOther = []"
| "scanRecursive sc opts cid croot currentPath FsBroken = []"
| "scanEntries sc opts cid croot currentPath [] = []"
| "scanEntries sc opts cid croot currentPath ((entry, node) # rest) =
     (if \<not> includeHidden opts \<and> startsWith entry ''.'' then []
      else if startsWith entry ''__cc'' then []
      else if shouldExclude sc (path_join [currentPath, entry]) then []
      else (case node of
              FsBroken \<Rightarrow> []
            | FsDir sub \<Rightarrow>
                (if recursive opts
                 then scanRecursive sc opts cid croot (path_join [currentPath, entry]) node
                 else [])
            | FsUnreadableDir \<Rightarrow>
                (if recursive opts
                 then scanRecursive sc opts cid croot (path_join [currentPath, entry]) node
                 else [])
            | FsFile n \<Rightarrow>
                (if categorizeFile (getExtension entry) = C_video
                    \<or> categorizeFile (getExtension entry) = C_audio
                 then []
                 else [\<lparr>path = path_join [currentPath, entry],
                        relativePath = relative (process_cwd sc) croot (path_join [currentPath, entry]),
                        name = entry,
                        extension = getExtension entry,
                        size_bytes = n,
                        category = categorizeFile (getExtension entry),
                        courseId = cid,
                        coursePath = croot\<rparr>])
            | FsOther \<Rightarrow> []))
     @ scanEntries sc opts cid croot currentPath rest"

definition scanDirectory ::
    "Scanner \<Rightarrow> fs_node option \<Rightarrow> string \<Rightarrow> string \<Rightarrow> string \<Rightarrow> ScanOptions \<Rightarrow> ScannedFile list" where
  "scanDirectory sc root dirPath cid croot opts =
     (case root of
        None \<Rightarrow> []
      | Some node \<Rightarrow> scanRecursive sc opts cid croot dirPath node)"

section \<open>Output paths (src/output/output-manager.ts, src/routing/file-router.ts)\<close>

definition flatten_separators :: "string \<Rightarrow> string" where
  "flatten_separators s = map (\<lambda>c. if c = CHR 0x5C \<or> c = slash then CHR ''_'' else c) s"

definition getOutputPath :: "string list \<Rightarrow> ScannedFile \<Rightarrow> string \<Rightarrow> string option \<Rightarrow> string" where
  "getOutputPath cwd f outputDir outputFormat_arg =
     (let relPath = relative cwd (coursePath f) (path f);
          relDir = dirname relPath;
          prefix = (if relDir \<noteq> [] \<and> relDir \<noteq> ''.'' then flatten_separators relDir @ ''_'' else []);
          currentExt = extension f;
          newExt = (case outputFormat_arg of
                      Some fmt \<Rightarrow> if fmt \<noteq> [] \<and> fmt \<noteq> ''directory'' then fmt else currentExt
                    | None \<Rightarrow> currentExt);
          baseName = basename (name f) currentExt
      in path_join [outputDir, prefix @ baseName @ newExt])"

definition FileRouter_getOutputPath ::
    "string list \<Rightarrow> ScannedFile \<Rightarrow> RoutingDecision \<Rightarrow> string \<Rightarrow> string" where
  "FileRouter_getOutputPath cwd f decision validatedFilesPath =
     (let relDir = relative cwd (coursePath f) (dirname (path f));
          prefix = (if relDir \<noteq> [] then flatten_separators relDir @ ''_'' else []);
          outputExt = (case outputFormat decision of
                         Some fmt \<Rightarrow> if fmt \<noteq> [] \<and> fmt \<noteq> ''directory'' then fmt else extension f
                       | None \<Rightarrow> extension f);
          baseName = basename (name f) (extension f)
      in path_join [validatedFilesPath, prefix @ baseName @ outputExt])"

section \<open>Queue items of a course (src/queue/async-queue.ts, src/core/app.ts)\<close>

text \<open>
  \<open>createQueueItem\<close> with the id that \<open>crypto.randomUUID()\<close> returned as an explicit
  argument. Of the optional overrides only the ones used in the repository are modelled.
\<close>

record QueueItemOptions =
  opt_stage :: "ProcessingStage option"
  opt_priority :: "int option"
  opt_maxAttempts :: "int option"

definition createQueueItem :: "string \<Rightarrow> ScannedFile \<Rightarrow> QueueItemOptions \<Rightarrow> QueueItem" where
  "createQueueItem uuid f opts =
     \<lparr>item_id = uuid, item_file = f, status = S_pending,
      stage = (case opt_stage opts of Some s \<Rightarrow> s | None \<Rightarrow> G_scan),
      priority = (case opt_priority opts of Some n \<Rightarrow> n | None \<Rightarrow> 0),
      attempts = 0,
      maxAttempts = (case opt_maxAttempts opts of Some n \<Rightarrow> n | None \<Rightarrow> 3),
      routedTo = None, outputPath = None, error = None\<rparr>"

text \<open>
  The loop of \<open>processCourse\<close> that turns the files of a course into queue items: the
  items it collects for \<open>submitMany\<close> and the warnings it writes to the error log, each a
  message and a file path. The \<open>n\<close>-th id drawn is \<open>uuid n\<close>.
\<close>

fun processCourse_queueItems ::
    "string list \<Rightarrow> (nat \<Rightarrow> string) \<Rightarrow> nat \<Rightarrow> string \<Rightarrow> ScannedFile list
       \<Rightarrow> QueueItem list \<times> (string \<times> string) list" where
  "processCourse_queueItems cwd uuid n validatedFilesPath [] = ([], [])"
| "processCourse_queueItems cwd uuid n validatedFilesPath (f # fs) =
     (if routing_method (routeByExtension f) = M_unsupported
      then (case processCourse_queueItems cwd uuid n validatedFilesPath fs of
              (queueItems, logged) \<Rightarrow>
                (queueItems, (''Unsupported file type: '' @ extension f, path f) # logged))
      else if routing_method (routeByExtension f) = M_skip
      then processCourse_queueItems cwd uuid n validatedFilesPath fs
      else (case processCourse_queueItems cwd uuid (Suc n) validatedFilesPath fs of
              (queueItems, logged) \<Rightarrow>
                ((createQueueItem (uuid n) f
                    \<lparr>opt_stage = Some G_convert, opt_priority = None, opt_maxAttempts = None\<rparr>)
                   \<lparr>routedTo := Some (routeByExtension f),
                    outputPath := Some (getOutputPath cwd f validatedFilesPath
                                          (outputFormat (routeByExtension f)))\<rparr>
                 # queueItems, logged)))"

section \<open>Auxiliary definitions for the properties\<close>

definition no_options :: QueueItemOptions where
  "no_options = \<lparr>opt_stage = None, opt_priority = None, opt_maxAttempts = None\<rparr>"

definition with_priority :: "int \<Rightarrow> QueueItemOptions" where
  "with_priority n = \<lparr>opt_stage = None, opt_priority = Some n, opt_maxAttempts = None\<rparr>"

definition notes_txt :: ScannedFile where
  "notes_txt =
     \<lparr>path = ''/courses/c1/notes.txt'', relativePath = ''notes.txt'', name = ''notes.txt'',
      extension = ''.txt'', size_bytes = 12, category = C_text, courseId = ''c1'',
      coursePath = ''/courses/c1''\<rparr>"

definition busy_queue :: AsyncQueue where
  "busy_queue =
     (new_AsyncQueue 1)
       \<lparr>items := [createQueueItem ''b'' notes_txt no_options], processing := [''a'']\<rparr>"

text \<open>
  A reachable queue state that is closed, has nothing pending and has one item in
  processing.
\<close>

definition closed_while_processing :: AsyncQueue where
  "closed_while_processing =
     exec_ops [Enqueue (createQueueItem ''x'' notes_txt no_options), Dequeue 0, Close]
       (new_AsyncQueue 2)"

text \<open>The items that a list of deliveries hands to waiters.\<close>

definition delivered_items :: "delivery list \<Rightarrow> QueueItem list" where
  "delivered_items ds = List.map_filter snd ds"

text \<open>
  One consumer that calls \<open>dequeue()\<close> \<open>n\<close> times and marks each item it gets as
  completed before it asks for the next one; the values of its \<open>dequeue()\<close> calls.
\<close>

fun acquire_all :: "nat \<Rightarrow> AsyncQueue \<Rightarrow> dequeue_result list" where
  "acquire_all 0 q = []"
| "acquire_all (Suc n) q =
     (case dequeue 0 q of
        (Resolved (Some item), q') \<Rightarrow>
          Resolved (Some item) # acquire_all n (fst (markCompleted item q'))
      | (r, q') \<Rightarrow> r # acquire_all n q')"

text \<open>
  Five items submitted with priorities 3, 1, 2, 1, 0 to a fresh queue of concurrency 1,
  one \<open>enqueue\<close> each, or all in one \<open>enqueueMany\<close>.
\<close>

definition five_submitted ::
  "QueueItem \<Rightarrow> QueueItem \<Rightarrow> QueueItem \<Rightarrow> QueueItem \<Rightarrow> QueueItem \<Rightarrow> AsyncQueue" where
  "five_submitted a b c d e =
     exec_ops [Enqueue (a\<lparr>priority := 3\<rparr>), Enqueue (b\<lparr>priority := 1\<rparr>),
               Enqueue (c\<lparr>priority := 2\<rparr>), Enqueue (d\<lparr>priority := 1\<rparr>),
               Enqueue (e\<lparr>priority := 0\<rparr>)] (new_AsyncQueue 1)"

definition five_submitted_at_once ::
  "QueueItem \<Rightarrow> QueueItem \<Rightarrow> QueueItem \<Rightarrow> QueueItem \<Rightarrow> QueueItem \<Rightarrow> AsyncQueue" where
  "five_submitted_at_once a b c d e =
     exec_op (EnqueueMany [a\<lparr>priority := 3\<rparr>, b\<lparr>priority := 1\<rparr>, c\<lparr>priority := 2\<rparr>,
                           d\<lparr>priority := 1\<rparr>, e\<lparr>priority := 0\<rparr>]) (new_AsyncQueue 1)"

text \<open>
  Five callers that call \<open>dequeue()\<close> one after the other without anything being
  completed in between, and the deliveries made while a list of items is marked completed
  one by one.
\<close>

definition five_callers :: "AsyncQueue \<Rightarrow> AsyncQueue" where
  "five_callers q = exec_ops [Dequeue 0, Dequeue 1, Dequeue 2, Dequeue 3, Dequeue 4] q"

fun complete_all :: "QueueItem list \<Rightarrow> AsyncQueue \<Rightarrow> delivery list" where
  "complete_all [] q = []"
| "complete_all (x # xs) q = snd (markCompleted x q) @ complete_all xs (fst (markCompleted x q))"

text \<open>
  A course directory with a transcript, a video, a hidden file, and a \<open>CODE\<close> folder
  holding a project with a source file and an audio file next to the tool's own output
  folder; a scanner without exclude patterns.
\<close>

definition course_tree :: fs_node where
  "course_tree =
     FsDir [(''lesson1.srt'', FsFile 100),
            (''intro.mp4'', FsFile 5000),
            (''.hidden'', FsFile 1),
            (''CODE'',
             FsDir [(''project1'', FsDir [(''main.cpp'', FsFile 42), (''demo.MP3'', FsFile 7)]),
                    (''__cc_validated_files'', FsDir [(''old.txt'', FsFile 3)])])]"

definition plain_scanner :: Scanner where
  "plain_scanner = \<lparr>excludePatterns = [], process_cwd = [''home'', ''user'']\<rparr>"

text \<open>
  Three files as the scanner reports them for the course directory above: the source file
  of scenario D, the transcript, and a data file of a type no table lists.
\<close>

definition main_cpp :: ScannedFile where
  "main_cpp =
     \<lparr>path = ''/courses/Course1/CODE/project1/main.cpp'',
      relativePath = ''CODE/project1/main.cpp'', name = ''main.cpp'', extension = ''.cpp'',
      size_bytes = 42, category = C_code, courseId = ''Course1'',
      coursePath = ''/courses/Course1''\<rparr>"

definition lesson1_srt :: ScannedFile where
  "lesson1_srt =
     \<lparr>path = ''/courses/Course1/lesson1.srt'',
      relativePath = ''lesson1.srt'', name = ''lesson1.srt'', extension = ''.srt'',
      size_bytes = 100, category = C_text, courseId = ''Course1'',
      coursePath = ''/courses/Course1''\<rparr>"

definition data_xyz :: ScannedFile where
  "data_xyz =
     \<lparr>path = ''/courses/Course1/data.xyz'', relativePath = ''data.xyz'', name = ''data.xyz'',
      extension = ''.xyz'', size_bytes = 9, category = C_unknown, courseId = ''Course1'',
      coursePath = ''/courses/Course1''\<rparr>"

text \<open>
  What \<open>getExtension\<close> can return: the empty string or a string that starts with a dot.
\<close>

definition is_extension :: "string \<Rightarrow> bool" where
  "is_extension e = (e = [] \<or> hd e = dot)"

text \<open>What the scanner guarantees of each file it reports.\<close>

definition scanned_ok :: "ScannedFile \<Rightarrow> bool" where
  "scanned_ok f =
     (category f = categorizeFile (extension f) \<and> category f \<noteq> C_video \<and> category f \<noteq> C_audio)"

definition scanned_absolute :: "string \<Rightarrow> ScannedFile \<Rightarrow> bool" where
  "scanned_absolute croot f = (isAbsolute (path f) \<and> coursePath f = croot)"

text \<open>The bound on the items being processed, for a queue and for a pool of \<open>W\<close> workers.\<close>

definition bounded :: "AsyncQueue \<Rightarrow> bool" where
  "bounded q = (length (processing q) \<le> maxConcurrent q)"

definition pool_bounded :: "nat \<Rightarrow> WorkerPool \<Rightarrow> bool" where
  "pool_bounded W p = (bounded (queue p) \<and> maxConcurrent (queue p) = W \<and> workerCount p = W)"

text \<open>
  Scenario B: a pool of one worker whose processor always fulfils with
  \<open>success: false\<close> after setting \<open>item.error\<close> to a recoverable error, one item with
  \<open>maxAttempts = 3\<close>, and the run of \<open>processCourse\<close>: submit, start,
  \<open>waitForCompletion\<close>, then the worker loop as far as it goes.
\<close>

definition failing_processor :: "string \<Rightarrow> string \<Rightarrow> QueueItem \<Rightarrow> processor_outcome" where
  "failing_processor c m item =
     Fulfilled \<lparr>queueItem = item_id item, success = False, result_outputPath = None, warnings = [m]\<rparr>
               (item\<lparr>error := Some \<lparr>code = c, message = m, recoverable = True\<rparr>\<rparr>)"

definition item_X :: "string \<Rightarrow> ScannedFile \<Rightarrow> int \<Rightarrow> QueueItem" where
  "item_X uuid f prio =
     createQueueItem uuid f \<lparr>opt_stage = None, opt_priority = Some prio, opt_maxAttempts = Some 3\<rparr>"

definition retry_pool :: "string \<Rightarrow> string \<Rightarrow> WorkerPool" where
  "retry_pool c m = new_WorkerPool 1 (failing_processor c m)"

definition retry_schedule :: "QueueItem \<Rightarrow> event list" where
  "retry_schedule x =
     [SubmitMany [x], Start, WaitForCompletion,
      Resume 0, Finish 0, Resume 0, Finish 0, Resume 0, Finish 0, Resume 0]"

text \<open>
  The same pool with a processor that only returns the failure: it fulfils with
  \<open>success: false\<close> and a message among the warnings, and leaves the item as it got it.
  A \<open>ProcessingResult\<close> has no error field, so this is all such a processor can return.
\<close>

definition returning_processor :: "string \<Rightarrow> QueueItem \<Rightarrow> processor_outcome" where
  "returning_processor m item =
     Fulfilled \<lparr>queueItem = item_id item, success = False, result_outputPath = None, warnings = [m]\<rparr>
               item"

definition returning_pool :: "string \<Rightarrow> WorkerPool" where
  "returning_pool m = new_WorkerPool 1 (returning_processor m)"

text \<open>The item as the queue hands it out for the attempt after \<open>n\<close> failed ones.\<close>

definition attempt :: "string \<Rightarrow> string \<Rightarrow> nat \<Rightarrow> QueueItem \<Rightarrow> QueueItem" where
  "attempt c m n x =
     (if n = 0 then x
      else x\<lparr>status := S_pending, attempts := int n,
             error := Some \<lparr>code = c, message = m, recoverable = True\<rparr>\<rparr>)"

definition max_attempts_error :: "int \<Rightarrow> ProcessingError" where
  "max_attempts_error n =
     \<lparr>code = ''MAX_ATTEMPTS'', message = ''Exceeded max attempts ('' @ show_int n @ '')'',
      recoverable = False\<rparr>"

text \<open>
  A pool that has nothing left to hand out: the queue is closed with nothing pending and
  nobody waiting, and every worker loop has ended or is about to see \<open>null\<close>.
\<close>

definition drained :: "WorkerPool \<Rightarrow> bool" where
  "drained p =
     (closed (queue p) \<and> items (queue p) = [] \<and> waiters (queue p) = []
      \<and> list_all (\<lambda>w. w = Exited \<or> w = Settled None) (workers p))"

text \<open>
  A processor that always throws, and a pool of one worker that has two items and is
  inside the processor call for the first.
\<close>

definition throwing_processor :: "string \<Rightarrow> QueueItem \<Rightarrow> processor_outcome" where
  "throwing_processor msg item = Rejected msg"

definition two_items_one_running :: WorkerPool where
  "two_items_one_running =
     run [SubmitMany [createQueueItem ''x'' notes_txt no_options,
                      createQueueItem ''y'' notes_txt no_options], Start, Resume 0]
       (new_WorkerPool 1 (throwing_processor ''boom''))"







section \<open>The processing bound\<close>

lemma length_set_add: "length (set_add x xs) \<le> Suc (length xs)"
  by (simp add: set_add_def)

lemma length_set_delete: "length (set_delete x xs) \<le> length xs"
  by (simp add: set_delete_def)

lemma notifyWaiters_stop:
  "waiters q = [] \<or> items q = [] \<or> \<not> length (processing q) < maxConcurrent q
   \<Longrightarrow> notifyWaiters q = (q, [])"
  by (subst notifyWaiters.simps) auto

lemma notifyWaiters_go:
  "waiters q \<noteq> [] \<Longrightarrow> items q \<noteq> [] \<Longrightarrow> length (processing q) < maxConcurrent q
   \<Longrightarrow> notifyWaiters q =
       (fst (notifyWaiters (q\<lparr>waiters := tl (waiters q), items := tl (items q),
                processing := set_add (item_id (hd (items q))) (processing q)\<rparr>)),
        (hd (waiters q), Some (hd (items q)))
          # snd (notifyWaiters (q\<lparr>waiters := tl (waiters q), items := tl (items q),
                processing := set_add (item_id (hd (items q))) (processing q)\<rparr>)))"
  by (subst notifyWaiters.simps) (simp add: case_prod_beta)

lemma notifyWaiters_maxConcurrent: "maxConcurrent (fst (notifyWaiters q)) = maxConcurrent q"
proof (induction q rule: notifyWaiters.induct)
  case (1 q)
  show ?case
  proof (cases "waiters q \<noteq> [] \<and> items q \<noteq> [] \<and> length (processing q) < maxConcurrent q")
    case True
    with 1 show ?thesis by (simp add: notifyWaiters_go)
  next
    case False
    then show ?thesis by (simp add: notifyWaiters_stop)
  qed
qed

lemma notifyWaiters_bounded: "bounded q \<Longrightarrow> bounded (fst (notifyWaiters q))"
proof (induction q rule: notifyWaiters.induct)
  case (1 q)
  show ?case
  proof (cases "waiters q \<noteq> [] \<and> items q \<noteq> [] \<and> length (processing q) < maxConcurrent q")
    case True
    let ?q = "q\<lparr>waiters := tl (waiters q), items := tl (items q),
                processing := set_add (item_id (hd (items q))) (processing q)\<rparr>"
    have "bounded ?q"
      using True length_set_add [of "item_id (hd (items q))" "processing q"]
      by (simp add: bounded_def)
    with 1 True have "bounded (fst (notifyWaiters ?q))" by blast
    with True show ?thesis by (simp add: notifyWaiters_go)
  next
    case False
    with 1 show ?thesis by (simp add: notifyWaiters_stop)
  qed
qed

lemma bounded_delete:
  "bounded q \<Longrightarrow> bounded (q\<lparr>processing := set_delete x (processing q)\<rparr>)"
  using length_set_delete [of x "processing q"] by (simp add: bounded_def)

lemma enqueue_bounded: "bounded q \<Longrightarrow> bounded (exec_op (Enqueue item) q)"
  using notifyWaiters_bounded [of "q\<lparr>items := sort_items (items q @ [item])\<rparr>"]
  by (simp add: enqueue_def bounded_def)

lemma enqueueMany_bounded: "bounded q \<Longrightarrow> bounded (exec_op (EnqueueMany xs) q)"
  using notifyWaiters_bounded [of "q\<lparr>items := sort_items (items q @ xs)\<rparr>"]
  by (simp add: enqueueMany_def bounded_def)

lemma dequeue_bounded: "bounded q \<Longrightarrow> bounded (snd (dequeue w q))"
  using length_set_add [of "item_id (hd (items q))" "processing q"]
  by (simp add: dequeue_def bounded_def)

lemma markCompleted_bounded: "bounded q \<Longrightarrow> bounded (fst (markCompleted item q))"
  unfolding markCompleted_def
  by (rule notifyWaiters_bounded) (use bounded_delete [of q "item_id item"] in \<open>simp add: bounded_def\<close>)

lemma markFailed_bounded: "bounded q \<Longrightarrow> bounded (fst (markFailed item err q))"
  unfolding markFailed_def
  by (rule notifyWaiters_bounded) (use bounded_delete [of q "item_id item"] in \<open>simp add: bounded_def\<close>)

lemma markSkipped_bounded: "bounded q \<Longrightarrow> bounded (fst (markSkipped item reason q))"
  unfolding markSkipped_def
  by (rule notifyWaiters_bounded) (use bounded_delete [of q "item_id item"] in \<open>simp add: bounded_def\<close>)

lemma requeue_bounded: "bounded q \<Longrightarrow> bounded (fst (requeue item q))"
proof -
  assume b: "bounded q"
  let ?q1 = "q\<lparr>processing := set_delete (item_id item) (processing q)\<rparr>"
  let ?item1 = "item\<lparr>attempts := attempts item + 1\<rparr>"
  let ?r = "if attempts ?item1 < maxAttempts ?item1
            then (?q1\<lparr>items := sort_items (items ?q1 @ [?item1\<lparr>status := S_pending\<rparr>])\<rparr>, [])
            else markFailed ?item1
                   (''MAX_ATTEMPTS'',
                    ''Exceeded max attempts ('' @ show_int (maxAttempts ?item1) @ '')'') ?q1"
  have b1: "bounded ?q1" using b by (rule bounded_delete)
  have "bounded (fst ?r)"
  proof (cases "attempts ?item1 < maxAttempts ?item1")
    case True
    then show ?thesis using b1 by (simp add: bounded_def)
  next
    case False
    then show ?thesis using markFailed_bounded [OF b1] by simp
  qed
  then have "bounded (fst (notifyWaiters (fst ?r)))" by (rule notifyWaiters_bounded)
  then show ?thesis by (simp add: requeue_def Let_def)
qed

lemma close_bounded: "bounded q \<Longrightarrow> bounded (fst (close q))"
  by (simp add: close_def bounded_def)

lemma exec_op_bounded: "bounded q \<Longrightarrow> bounded (exec_op op q)"
proof (cases op)
  case (Enqueue x) then show "bounded q \<Longrightarrow> ?thesis" using enqueue_bounded by blast
next
  case (EnqueueMany x) then show "bounded q \<Longrightarrow> ?thesis" using enqueueMany_bounded by blast
next
  case (Dequeue x) then show "bounded q \<Longrightarrow> ?thesis" by (simp add: dequeue_bounded)
next
  case (MarkCompleted x) then show "bounded q \<Longrightarrow> ?thesis" by (simp add: markCompleted_bounded)
next
  case (MarkFailed x e) then show "bounded q \<Longrightarrow> ?thesis" by (simp add: markFailed_bounded)
next
  case (MarkSkipped x r) then show "bounded q \<Longrightarrow> ?thesis" by (simp add: markSkipped_bounded)
next
  case (Requeue x) then show "bounded q \<Longrightarrow> ?thesis" by (simp add: requeue_bounded)
next
  case Close then show "bounded q \<Longrightarrow> ?thesis" by (simp add: close_bounded)
qed


lemma enqueue_maxConcurrent: "enqueue item q = Inr r \<Longrightarrow> maxConcurrent (fst r) = maxConcurrent q"
  by (auto simp: enqueue_def notifyWaiters_maxConcurrent split: if_splits)

lemma enqueueMany_maxConcurrent: "enqueueMany xs q = Inr r \<Longrightarrow> maxConcurrent (fst r) = maxConcurrent q"
  by (auto simp: enqueueMany_def notifyWaiters_maxConcurrent split: if_splits)

lemma dequeue_maxConcurrent: "maxConcurrent (snd (dequeue w q)) = maxConcurrent q"
  by (simp add: dequeue_def)

lemma markCompleted_maxConcurrent: "maxConcurrent (fst (markCompleted item q)) = maxConcurrent q"
  by (simp add: markCompleted_def notifyWaiters_maxConcurrent)

lemma markFailed_maxConcurrent: "maxConcurrent (fst (markFailed item err q)) = maxConcurrent q"
  by (simp add: markFailed_def notifyWaiters_maxConcurrent)

lemma markSkipped_maxConcurrent: "maxConcurrent (fst (markSkipped item reason q)) = maxConcurrent q"
  by (simp add: markSkipped_def notifyWaiters_maxConcurrent)

lemma requeue_maxConcurrent: "maxConcurrent (fst (requeue item q)) = maxConcurrent q"
  by (simp add: requeue_def Let_def notifyWaiters_maxConcurrent markFailed_maxConcurrent)

lemma close_maxConcurrent: "maxConcurrent (fst (close q)) = maxConcurrent q"
  by (simp add: close_def)

lemma exec_op_maxConcurrent: "maxConcurrent (exec_op op q) = maxConcurrent q"
  by (cases op)
     (auto simp: dequeue_maxConcurrent markCompleted_maxConcurrent markFailed_maxConcurrent
        markSkipped_maxConcurrent requeue_maxConcurrent close_maxConcurrent
        enqueue_maxConcurrent enqueueMany_maxConcurrent split: sum.splits)

lemma enqueue_bounded': "bounded q \<Longrightarrow> enqueue item q = Inr r \<Longrightarrow> bounded (fst r)"
  using enqueue_bounded [of q item] by simp

lemma enqueueMany_bounded': "bounded q \<Longrightarrow> enqueueMany xs q = Inr r \<Longrightarrow> bounded (fst r)"
  using enqueueMany_bounded [of q xs] by simp

lemma loop_head_pool_bounded: "pool_bounded W p \<Longrightarrow> pool_bounded W (loop_head i p)"
  using dequeue_bounded [of "queue p" i] dequeue_maxConcurrent [of i "queue p"]
  by (auto simp: loop_head_def pool_bounded_def split: prod.splits dequeue_result.splits)

lemma update_queue_bounded: "bounded q \<Longrightarrow> bounded (fst (update_queue r item q))"
  by (simp add: update_queue_def markCompleted_bounded requeue_bounded markFailed_bounded)

lemma update_queue_maxConcurrent: "maxConcurrent (fst (update_queue r item q)) = maxConcurrent q"
  by (simp add: update_queue_def markCompleted_maxConcurrent requeue_maxConcurrent
      markFailed_maxConcurrent)

lemma finish_pool_bounded: "pool_bounded W p \<Longrightarrow> pool_bounded W (finish i p)"
proof -
  assume b: "pool_bounded W p"
  show ?thesis
  proof (cases "i < length (workers p)")
    case False
    with b show ?thesis by (simp add: finish_def)
  next
    case True
    show ?thesis
    proof (cases "workers p ! i")
      case (InProcessor item)
      let ?s = "settle item (processor p item)"
      let ?u = "update_queue (fst ?s) (snd ?s) (queue p)"
      let ?p = "p\<lparr>queue := fst ?u, workers := deliver (snd ?u) (workers p),
                   results := results p @ [fst ?s]\<rparr>"
      have "pool_bounded W ?p"
        using b update_queue_bounded [of "queue p" "fst ?s" "snd ?s"]
        by (simp add: pool_bounded_def update_queue_maxConcurrent)
      then have "pool_bounded W (loop_head i ?p)" by (rule loop_head_pool_bounded)
      with True InProcessor show ?thesis by (simp add: finish_def Let_def)
    qed (use b True in \<open>simp_all add: finish_def\<close>)
  qed
qed

lemma resume_pool_bounded: "pool_bounded W p \<Longrightarrow> pool_bounded W (resume i p)"
  by (auto simp: resume_def pool_bounded_def split: worker.splits option.splits)

lemma spawn_pool_bounded: "pool_bounded W p \<Longrightarrow> pool_bounded W (spawn p)"
  unfolding spawn_def by (rule loop_head_pool_bounded) (simp add: pool_bounded_def)

lemma spawn_funpow_pool_bounded: "pool_bounded W p \<Longrightarrow> pool_bounded W ((spawn ^^ n) p)"
  by (induction n) (simp_all add: spawn_pool_bounded)

lemma start_pool_bounded: "pool_bounded W p \<Longrightarrow> pool_bounded W (start p)"
proof -
  assume b: "pool_bounded W p"
  then have "pool_bounded W (p\<lparr>running := True\<rparr>)" by (simp add: pool_bounded_def)
  then have "pool_bounded W ((spawn ^^ workerCount p) (p\<lparr>running := True\<rparr>))"
    by (rule spawn_funpow_pool_bounded)
  with b show ?thesis by (simp add: start_def)
qed

lemma close_queue_pool_bounded: "pool_bounded W p \<Longrightarrow> pool_bounded W (close_queue p)"
  by (simp add: close_queue_def Let_def pool_bounded_def close_def bounded_def)

lemma step_pool_bounded: "pool_bounded W p \<Longrightarrow> pool_bounded W (step e p)"
proof (cases e)
  case (Submit x)
  then show "pool_bounded W p \<Longrightarrow> ?thesis"
    using enqueue_maxConcurrent [of x "queue p"] enqueue_bounded' [of "queue p" x]
    by (auto simp: submit_def pool_bounded_def split: sum.splits)
next
  case (SubmitMany x)
  then show "pool_bounded W p \<Longrightarrow> ?thesis"
    using enqueueMany_maxConcurrent [of x "queue p"] enqueueMany_bounded' [of "queue p" x]
    by (auto simp: submitMany_def pool_bounded_def split: sum.splits)
next
  case Start then show "pool_bounded W p \<Longrightarrow> ?thesis" by (simp add: start_pool_bounded)
next
  case (Resume i) then show "pool_bounded W p \<Longrightarrow> ?thesis" by (simp add: resume_pool_bounded)
next
  case (Finish i) then show "pool_bounded W p \<Longrightarrow> ?thesis" by (simp add: finish_pool_bounded)
next
  case WaitForCompletion
  then show "pool_bounded W p \<Longrightarrow> ?thesis"
    using close_queue_pool_bounded [of W p]
    by (simp add: waitForCompletion_begin_def pool_bounded_def)
next
  case CompletionReturns
  then show "pool_bounded W p \<Longrightarrow> ?thesis"
    by (auto simp: waitForCompletion_return_def pool_bounded_def)
next
  case Shutdown
  then show "pool_bounded W p \<Longrightarrow> ?thesis"
    using close_queue_pool_bounded [of W "p\<lparr>running := False\<rparr>"]
    by (simp add: shutdown_def pool_bounded_def)
qed

lemma run_pool_bounded: "pool_bounded W p \<Longrightarrow> pool_bounded W (run es p)"
  unfolding run_def by (induction es arbitrary: p) (simp_all add: step_pool_bounded)

lemma new_WorkerPool_bounded: "pool_bounded W (new_WorkerPool W f)"
  by (simp add: pool_bounded_def bounded_def new_WorkerPool_def new_AsyncQueue_def)

text \<open>
  Claim C1. In every state a pool of \<open>W\<close> workers can reach, by any interleaving of
  submissions, worker continuations, \<open>waitForCompletion\<close> and \<open>shutdown\<close>, the queue
  reports at most \<open>W\<close> items in processing, and its concurrency limit is still \<open>W\<close>.
  Every queue operation (enqueue, enqueueMany, dequeue, markCompleted, markFailed,
  markSkipped, requeue, close) keeps the number in processing within the limit and leaves
  the limit unchanged.
\<close>

theorem processing_never_exceeds_worker_count:
  "st_processing (getStats (queue (run es (new_WorkerPool W f)))) \<le> W
   \<and> maxConcurrent (queue (run es (new_WorkerPool W f))) = W
   \<and> (\<forall>q op. st_processing (getStats q) \<le> maxConcurrent q
          \<longrightarrow> st_processing (getStats (exec_op op q)) \<le> maxConcurrent q
              \<and> maxConcurrent (exec_op op q) = maxConcurrent q)"
proof -
  let ?p = "run es (new_WorkerPool W f)"
  have "pool_bounded W ?p" using new_WorkerPool_bounded by (rule run_pool_bounded)
  then show ?thesis
    using exec_op_bounded exec_op_maxConcurrent
    by (simp add: pool_bounded_def bounded_def getStats_def)
qed


theorem processing_never_exceeds_worker_count_witness:
  "st_processing (getStats busy_queue) \<le> maxConcurrent busy_queue
   \<and> st_processing (getStats (exec_op (Dequeue 0) busy_queue)) \<le> maxConcurrent busy_queue
   \<and> maxConcurrent (exec_op (Dequeue 0) busy_queue) = maxConcurrent busy_queue"
proof -
  have h: "st_processing (getStats busy_queue) \<le> maxConcurrent busy_queue"
    by (simp add: busy_queue_def getStats_def new_AsyncQueue_def)
  have "\<forall>q op. st_processing (getStats q) \<le> maxConcurrent q
          \<longrightarrow> st_processing (getStats (exec_op op q)) \<le> maxConcurrent q
              \<and> maxConcurrent (exec_op op q) = maxConcurrent q"
    using processing_never_exceeds_worker_count [of "[]" 1 "\<lambda>item. Rejected []"] by blast
  with h show ?thesis by blast
qed

section \<open>The no-more-work sentinel\<close>

lemma closed_while_processing_eq:
  "closed_while_processing = (new_AsyncQueue 2)\<lparr>processing := [''x''], closed := True\<rparr>"
  by (simp add: closed_while_processing_def exec_ops_def enqueue_def new_AsyncQueue_def
      notifyWaiters_stop sort_items_def dequeue_def set_add_def close_def createQueueItem_def)

lemma notifyWaiters_delivers_items: "d \<in> set (snd (notifyWaiters q)) \<Longrightarrow> snd d \<noteq> None"
proof (induction q rule: notifyWaiters.induct)
  case (1 q)
  show ?case
  proof (cases "waiters q \<noteq> [] \<and> items q \<noteq> [] \<and> length (processing q) < maxConcurrent q")
    case True
    with 1 show ?thesis by (auto simp: notifyWaiters_go)
  next
    case False
    with 1 show ?thesis by (simp add: notifyWaiters_stop)
  qed
qed

text \<open>
  Claim C2, as stated, fails: in a closed queue with nothing pending and one item still in
  processing, \<open>dequeue()\<close> returns \<open>null\<close> at once.
\<close>

theorem dequeue_sentinel_counterexample:
  "closed closed_while_processing \<and> items closed_while_processing = []
   \<and> st_processing (getStats closed_while_processing) = 1
   \<and> fst (dequeue 1 closed_while_processing) = Resolved None"
  by (simp add: closed_while_processing_eq new_AsyncQueue_def getStats_def dequeue_def)

text \<open>
  Claim C2, amended. \<open>dequeue()\<close> returns \<open>null\<close> at once exactly when the queue is
  closed and either nothing is pending or the number in processing has reached the
  concurrency limit; items still in processing do not hold the sentinel back. A suspended
  caller receives \<open>null\<close> from \<open>close()\<close>, which releases every waiter with it; the only
  other values handed to waiters, by \<open>notifyWaiters\<close>, are items.
\<close>

theorem dequeue_sentinel:
  "(fst (dequeue caller q) = Resolved None)
     = (closed q \<and> (items q = [] \<or> maxConcurrent q \<le> length (processing q)))
   \<and> snd (close q) = map (\<lambda>w. (w, None)) (waiters q)
   \<and> (\<forall>d \<in> set (snd (notifyWaiters q)). snd d \<noteq> None)"
  using notifyWaiters_delivers_items [of _ q]
  by (auto simp: dequeue_def close_def)

theorem dequeue_sentinel_witness:
  "(closed closed_while_processing
     \<and> (items closed_while_processing = []
         \<or> maxConcurrent closed_while_processing \<le> length (processing closed_while_processing)))
   \<and> fst (dequeue 7 closed_while_processing) = Resolved None"
proof -
  have h: "closed closed_while_processing \<and> items closed_while_processing = []"
    by (simp add: closed_while_processing_eq new_AsyncQueue_def)
  with dequeue_sentinel [of 7 closed_while_processing] show ?thesis by blast
qed

section \<open>Priority order of the pending items\<close>

lemma notifyWaiters_split:
  "delivered_items (snd (notifyWaiters q)) @ items (fst (notifyWaiters q)) = items q"
proof (induction q rule: notifyWaiters.induct)
  case (1 q)
  show ?case
  proof (cases "waiters q \<noteq> [] \<and> items q \<noteq> [] \<and> length (processing q) < maxConcurrent q")
    case True
    with 1 show ?thesis
      by (simp add: notifyWaiters_go delivered_items_def List.map_filter_simps)
  next
    case False
    then show ?thesis by (simp add: notifyWaiters_stop delivered_items_def List.map_filter_simps)
  qed
qed

lemma sorted_suffix: "sorted (map f (xs @ ys)) \<Longrightarrow> sorted (map f ys)"
  by (simp add: sorted_append)

lemma enqueueMany_ordered:
  assumes "enqueueMany new_items q = Inr r"
  shows "sorted (map priority (items (fst r)))"
    and "filter (\<lambda>x. priority x = k) (delivered_items (snd r) @ items (fst r))
           = filter (\<lambda>x. priority x = k) (items q @ new_items)"
proof -
  let ?q = "q\<lparr>items := sort_items (items q @ new_items)\<rparr>"
  from assms have r: "r = notifyWaiters ?q" by (auto simp: enqueueMany_def split: if_splits)
  have split: "delivered_items (snd r) @ items (fst r) = sort_items (items q @ new_items)"
    using notifyWaiters_split [of ?q] r by simp
  have "sorted (map priority (sort_items (items q @ new_items)))"
    by (simp add: sort_items_def)
  with split show "sorted (map priority (items (fst r)))"
    using sorted_suffix [of priority "delivered_items (snd r)" "items (fst r)"] by simp
  show "filter (\<lambda>x. priority x = k) (delivered_items (snd r) @ items (fst r))
           = filter (\<lambda>x. priority x = k) (items q @ new_items)"
    unfolding split sort_items_def by (rule sort_key_stable)
qed

lemma enqueue_as_enqueueMany: "enqueue item q = enqueueMany [item] q"
  by (simp add: enqueue_def enqueueMany_def)

lemma five_submitted_items:
  "five_submitted a b c d e =
     (new_AsyncQueue 1)\<lparr>items := [e\<lparr>priority := 0\<rparr>, b\<lparr>priority := 1\<rparr>, d\<lparr>priority := 1\<rparr>,
                                  c\<lparr>priority := 2\<rparr>, a\<lparr>priority := 3\<rparr>]\<rparr>"
  by (simp add: five_submitted_def exec_ops_def enqueue_def new_AsyncQueue_def
      notifyWaiters_stop sort_items_def)

lemma five_submitted_at_once_items:
  "five_submitted_at_once a b c d e = five_submitted a b c d e"
  unfolding five_submitted_items
  by (simp add: five_submitted_at_once_def enqueueMany_def new_AsyncQueue_def
      notifyWaiters_stop sort_items_def)

lemma acquire_step:
  "length (processing q) < maxConcurrent q \<Longrightarrow> items q = x # xs \<Longrightarrow> waiters q = [] \<Longrightarrow>
   acquire_all (Suc n) q =
     Resolved (Some x) # acquire_all n
        (q\<lparr>items := xs, processing := set_delete (item_id x) (set_add (item_id x) (processing q)),
           completed := map_set (item_id x) (x\<lparr>status := S_completed\<rparr>) (completed q)\<rparr>)"
  by (simp add: dequeue_def markCompleted_def notifyWaiters_stop)

lemma scenario_A:
  "acquire_all 5 (five_submitted a b c d e) =
     map (\<lambda>x. Resolved (Some x))
       [e\<lparr>priority := 0\<rparr>, b\<lparr>priority := 1\<rparr>, d\<lparr>priority := 1\<rparr>, c\<lparr>priority := 2\<rparr>, a\<lparr>priority := 3\<rparr>]"
  unfolding five_submitted_items
  by (simp add: eval_nat_numeral acquire_step new_AsyncQueue_def set_add_def set_delete_def
      del: acquire_all.simps(2))

lemma five_callers_state:
  "five_callers (five_submitted a b c d e) =
     (new_AsyncQueue 1)\<lparr>items := [b\<lparr>priority := 1\<rparr>, d\<lparr>priority := 1\<rparr>,
                                  c\<lparr>priority := 2\<rparr>, a\<lparr>priority := 3\<rparr>],
                        processing := [item_id e], waiters := [1, 2, 3, 4]\<rparr>"
  unfolding five_submitted_items
  by (simp add: five_callers_def exec_ops_def dequeue_def new_AsyncQueue_def set_add_def)

lemma notify_one:
  "waiters q = w # ws \<Longrightarrow> items q = x # xs \<Longrightarrow> processing q = [] \<Longrightarrow> maxConcurrent q = 1 \<Longrightarrow>
   notifyWaiters q = (q\<lparr>waiters := ws, items := xs, processing := [item_id x]\<rparr>, [(w, Some x)])"
  by (simp add: notifyWaiters_go notifyWaiters_stop set_add_def)

lemma complete_one:
  "waiters q = w # ws \<Longrightarrow> items q = x # xs \<Longrightarrow> processing q = [item_id y] \<Longrightarrow> maxConcurrent q = 1 \<Longrightarrow>
   markCompleted y q =
     (q\<lparr>processing := [item_id x],
        completed := map_set (item_id y) (y\<lparr>status := S_completed\<rparr>) (completed q),
        waiters := ws, items := xs\<rparr>, [(w, Some x)])"
  by (simp add: markCompleted_def notify_one set_delete_def)

lemma suspended_callers_served_in_order:
  "fst (dequeue 0 (five_submitted a b c d e)) = Resolved (Some (e\<lparr>priority := 0\<rparr>))
   \<and> complete_all [e\<lparr>priority := 0\<rparr>, b\<lparr>priority := 1\<rparr>, d\<lparr>priority := 1\<rparr>, c\<lparr>priority := 2\<rparr>]
        (five_callers (five_submitted a b c d e))
      = [(1, Some (b\<lparr>priority := 1\<rparr>)), (2, Some (d\<lparr>priority := 1\<rparr>)),
         (3, Some (c\<lparr>priority := 2\<rparr>)), (4, Some (a\<lparr>priority := 3\<rparr>))]"
  unfolding five_callers_state
  by (simp add: five_submitted_items dequeue_def new_AsyncQueue_def complete_one)

text \<open>
  Claim C3. Five items \<open>a\<close>, \<open>b\<close>, \<open>c\<close>, \<open>d\<close>, \<open>e\<close> submitted in this order with
  priorities 3, 1, 2, 1, 0 to a queue of concurrency 1 (by five \<open>enqueue\<close> calls or by one
  \<open>enqueueMany\<close>) are acquired, each being completed before the next acquire, in the order
  \<open>e\<close>, \<open>b\<close>, \<open>d\<close>, \<open>c\<close>, \<open>a\<close>: priorities 0, 1, 1, 2, 3, with \<open>b\<close> before \<open>d\<close> as
  submitted. In general, after every successful \<open>enqueue\<close> or \<open>enqueueMany\<close> the pending
  list is sorted by ascending priority, and for each priority value the items of that
  priority (those handed straight to waiters first, then the pending ones) are in the
  order in which they stood in the pending list followed by the new items. When instead
  five callers ask one after the other with nothing completed in between, the first gets
  \<open>e\<close> and the others are suspended; completing \<open>e\<close>, \<open>b\<close>, \<open>d\<close>, \<open>c\<close> in turn
  hands \<open>b\<close>, \<open>d\<close>, \<open>c\<close>, \<open>a\<close> to the suspended callers in the order they asked.
\<close>

theorem pending_in_priority_order:
  "acquire_all 5 (five_submitted a b c d e) =
     map (\<lambda>x. Resolved (Some x))
       [e\<lparr>priority := 0\<rparr>, b\<lparr>priority := 1\<rparr>, d\<lparr>priority := 1\<rparr>, c\<lparr>priority := 2\<rparr>, a\<lparr>priority := 3\<rparr>]
   \<and> acquire_all 5 (five_submitted_at_once a b c d e) = acquire_all 5 (five_submitted a b c d e)
   \<and> fst (dequeue 0 (five_submitted a b c d e)) = Resolved (Some (e\<lparr>priority := 0\<rparr>))
   \<and> complete_all [e\<lparr>priority := 0\<rparr>, b\<lparr>priority := 1\<rparr>, d\<lparr>priority := 1\<rparr>, c\<lparr>priority := 2\<rparr>]
        (five_callers (five_submitted a b c d e))
      = [(1, Some (b\<lparr>priority := 1\<rparr>)), (2, Some (d\<lparr>priority := 1\<rparr>)),
         (3, Some (c\<lparr>priority := 2\<rparr>)), (4, Some (a\<lparr>priority := 3\<rparr>))]
   \<and> (\<forall>q new_items r. enqueueMany new_items q = Inr r \<longrightarrow>
          sorted (map priority (items (fst r)))
          \<and> (\<forall>k. filter (\<lambda>x. priority x = k) (delivered_items (snd r) @ items (fst r))
                   = filter (\<lambda>x. priority x = k) (items q @ new_items)))
   \<and> (\<forall>q item r. enqueue item q = Inr r \<longrightarrow>
          sorted (map priority (items (fst r)))
          \<and> (\<forall>k. filter (\<lambda>x. priority x = k) (delivered_items (snd r) @ items (fst r))
                   = filter (\<lambda>x. priority x = k) (items q @ [item])))"
  using scenario_A [of a b c d e] five_submitted_at_once_items [of a b c d e]
    suspended_callers_served_in_order [of a b c d e] enqueueMany_ordered
  by (simp add: enqueue_as_enqueueMany)

theorem pending_in_priority_order_witness:
  "enqueue (createQueueItem ''p1'' notes_txt (with_priority 1))
       ((new_AsyncQueue 1)\<lparr>items := [createQueueItem ''p2'' notes_txt (with_priority 2)]\<rparr>)
     = Inr ((new_AsyncQueue 1)\<lparr>items := [createQueueItem ''p1'' notes_txt (with_priority 1),
                                         createQueueItem ''p2'' notes_txt (with_priority 2)]\<rparr>, [])
   \<and> sorted (map priority [createQueueItem ''p1'' notes_txt (with_priority 1),
                             createQueueItem ''p2'' notes_txt (with_priority 2)])"
proof -
  let ?q = "(new_AsyncQueue 1)\<lparr>items := [createQueueItem ''p2'' notes_txt (with_priority 2)]\<rparr>"
  let ?r = "((new_AsyncQueue 1)\<lparr>items := [createQueueItem ''p1'' notes_txt (with_priority 1),
                                         createQueueItem ''p2'' notes_txt (with_priority 2)]\<rparr>, [])"
  have h: "enqueue (createQueueItem ''p1'' notes_txt (with_priority 1)) ?q = Inr ?r"
    by (simp add: enqueue_def new_AsyncQueue_def notifyWaiters_stop sort_items_def
        createQueueItem_def with_priority_def)
  from pending_in_priority_order [of undefined undefined undefined undefined undefined]
  have g: "\<And>q item r. enqueue item q = Inr r \<Longrightarrow> sorted (map priority (items (fst r)))"
    by blast
  from g [OF h] h show ?thesis by simp
qed

section \<open>Retry until the attempts are used up\<close>

lemma run_Cons: "run (e # es) p = run es (step e p)"
  by (simp add: run_def)

lemma run_Nil: "run [] p = p"
  by (simp add: run_def)

lemma deliver_Nil: "deliver [] ws = ws"
  by (simp add: deliver_def)

lemmas pool_eval =
  run_Cons run_Nil retry_pool_def new_WorkerPool_def new_AsyncQueue_def
  submitMany_def enqueueMany_def notifyWaiters_stop sort_items_def deliver_Nil
  start_def spawn_def loop_head_def dequeue_def set_add_def set_delete_def
  waitForCompletion_begin_def close_queue_def close_def
  resume_def finish_def settle_def failing_processor_def update_queue_def
  requeue_def markFailed_def map_set_def Let_def

lemma show_int_3: "show_int 3 = ''3''"
  by (simp add: show_int_def show_nat.simps digit_char_def)

lemma retry_final:
  "run (retry_schedule (item_X uuid f prio)) (retry_pool c m) =
     \<lparr>queue = (new_AsyncQueue 1)
         \<lparr>failed := [(uuid, (item_X uuid f prio)
                       \<lparr>status := S_failed, attempts := 3, error := Some (max_attempts_error 3)\<rparr>)],
          closed := True\<rparr>,
      workers = [Exited],
      results = replicate 3 \<lparr>queueItem = uuid, success = False, result_outputPath = None,
                              warnings = [m]\<rparr>,
      running = True, workerCount = 1, processor = failing_processor c m,
      awaitingCompletion = True\<rparr>"
  by (simp add: retry_schedule_def item_X_def createQueueItem_def pool_eval show_int_3
      max_attempts_error_def eval_nat_numeral)

lemma retry_acquired:
  "acquired (retry_schedule (item_X uuid f prio)) (retry_pool c m) =
     map (\<lambda>n. attempt c m n (item_X uuid f prio)) [0, 1, 2]"
  by (simp add: retry_schedule_def item_X_def createQueueItem_def pool_eval attempt_def)

lemma drained_spawn: "drained p \<Longrightarrow> running p \<Longrightarrow> drained (spawn p) \<and> running (spawn p)"
  by (simp add: drained_def spawn_def loop_head_def dequeue_def list_all_length nth_append)

lemma drained_spawn_funpow:
  "drained p \<Longrightarrow> running p \<Longrightarrow> drained ((spawn ^^ n) p) \<and> running ((spawn ^^ n) p)"
  by (induction n) (simp_all add: drained_spawn)

lemma drained_start: "drained p \<Longrightarrow> drained (start p)"
proof -
  assume d: "drained p"
  then have "drained (p\<lparr>running := True\<rparr>)" by (simp add: drained_def)
  then have "drained ((spawn ^^ workerCount p) (p\<lparr>running := True\<rparr>))"
    using drained_spawn_funpow [of "p\<lparr>running := True\<rparr>" "workerCount p"] by simp
  with d show ?thesis by (simp add: start_def)
qed

lemma drained_resume: "drained p \<Longrightarrow> drained (resume i p)"
  by (auto simp: drained_def resume_def list_all_length nth_list_update
      split: worker.splits option.splits)

lemma drained_finish: "drained p \<Longrightarrow> finish i p = p"
  by (auto simp: drained_def finish_def list_all_length split: worker.splits)

lemma drained_close_queue: "drained p \<Longrightarrow> drained (close_queue p)"
  by (simp add: drained_def close_queue_def close_def Let_def deliver_Nil)

lemma drained_step: "drained p \<Longrightarrow> drained (step e p)"
proof (cases e)
  case (Submit x)
  then show "drained p \<Longrightarrow> ?thesis" by (simp add: drained_def submit_def enqueue_def)
next
  case (SubmitMany x)
  then show "drained p \<Longrightarrow> ?thesis" by (simp add: drained_def submitMany_def enqueueMany_def)
next
  case Start then show "drained p \<Longrightarrow> ?thesis" by (simp add: drained_start)
next
  case (Resume i) then show "drained p \<Longrightarrow> ?thesis" by (simp add: drained_resume)
next
  case (Finish i) then show "drained p \<Longrightarrow> ?thesis" by (simp add: drained_finish)
next
  case WaitForCompletion
  then show "drained p \<Longrightarrow> ?thesis"
    using drained_close_queue [of p] by (simp add: waitForCompletion_begin_def drained_def)
next
  case CompletionReturns
  then show "drained p \<Longrightarrow> ?thesis" by (auto simp: waitForCompletion_return_def drained_def)
next
  case Shutdown
  then show "drained p \<Longrightarrow> ?thesis"
    using drained_close_queue [of "p\<lparr>running := False\<rparr>"] by (simp add: shutdown_def drained_def)
qed

lemma drained_received: "drained p \<Longrightarrow> received e p = []"
  by (cases e) (auto simp: drained_def list_all_length split: worker.splits option.splits)

lemma drained_acquired: "drained p \<Longrightarrow> acquired es p = []"
  by (induction es arbitrary: p) (simp_all add: drained_received drained_step)

lemma retry_final_drained: "drained (run (retry_schedule (item_X uuid f prio)) (retry_pool c m))"
  unfolding retry_final by (simp add: drained_def new_AsyncQueue_def)

lemma notifyWaiters_frame:
  "failed (fst (notifyWaiters q)) = failed q
   \<and> completed (fst (notifyWaiters q)) = completed q
   \<and> skipped (fst (notifyWaiters q)) = skipped q
   \<and> closed (fst (notifyWaiters q)) = closed q"
proof (induction q rule: notifyWaiters.induct)
  case (1 q)
  show ?case
  proof (cases "waiters q \<noteq> [] \<and> items q \<noteq> [] \<and> length (processing q) < maxConcurrent q")
    case True
    with 1 show ?thesis by (simp add: notifyWaiters_go)
  next
    case False
    then show ?thesis by (simp add: notifyWaiters_stop)
  qed
qed

lemma notifyWaiters_drop:
  "\<exists>k. items (fst (notifyWaiters q)) = drop k (items q)"
  using notifyWaiters_split [of q]
  by (metis append_eq_conv_conj)

lemma delivered_items_append:
  "delivered_items (xs @ ys) = delivered_items xs @ delivered_items ys"
  by (simp add: delivered_items_def List.map_filter_def)

lemma markFailed_split:
  "delivered_items (snd (markFailed item err q)) @ items (fst (markFailed item err q)) = items q"
  using notifyWaiters_split
    [of "q\<lparr>processing := set_delete (item_id item) (processing q),
          failed := map_set (item_id item)
                      (item\<lparr>status := S_failed,
                            error := Some \<lparr>code = fst err, message = snd err, recoverable = False\<rparr>\<rparr>)
                      (failed q)\<rparr>"]
  by (simp add: markFailed_def)

lemma markFailed_failed:
  "failed (fst (markFailed item err q)) =
     map_set (item_id item)
       (item\<lparr>status := S_failed,
             error := Some \<lparr>code = fst err, message = snd err, recoverable = False\<rparr>\<rparr>) (failed q)"
  by (simp add: markFailed_def notifyWaiters_frame)

lemma map_of_map_set: "map_of (map_set k v m) k = Some v"
  by (simp add: map_set_def update_conv')

lemma requeue_retry:
  assumes "attempts item + 1 < maxAttempts item"
  shows "delivered_items (snd (requeue item q)) @ items (fst (requeue item q))
           = sort_items (items q @ [item\<lparr>attempts := attempts item + 1, status := S_pending\<rparr>])"
    and "failed (fst (requeue item q)) = failed q"
    and "sorted (map priority (items (fst (requeue item q))))"
proof -
  let ?q2 = "q\<lparr>processing := set_delete (item_id item) (processing q),
              items := sort_items (items q @ [item\<lparr>attempts := attempts item + 1, status := S_pending\<rparr>])\<rparr>"
  from assms have r: "requeue item q = notifyWaiters ?q2"
    by (simp add: requeue_def Let_def)
  show s: "delivered_items (snd (requeue item q)) @ items (fst (requeue item q))
           = sort_items (items q @ [item\<lparr>attempts := attempts item + 1, status := S_pending\<rparr>])"
    unfolding r using notifyWaiters_split [of ?q2] by simp
  show "failed (fst (requeue item q)) = failed q"
    unfolding r by (simp add: notifyWaiters_frame)
  have "sorted (map priority (delivered_items (snd (requeue item q)) @ items (fst (requeue item q))))"
    unfolding s by (simp add: sort_items_def)
  then show "sorted (map priority (items (fst (requeue item q))))"
    by (simp add: sorted_append)
qed

lemma requeue_exhausted:
  assumes "\<not> attempts item + 1 < maxAttempts item"
  shows "map_of (failed (fst (requeue item q))) (item_id item)
           = Some (item\<lparr>attempts := attempts item + 1, status := S_failed,
                        error := Some (max_attempts_error (maxAttempts item))\<rparr>)"
    and "delivered_items (snd (requeue item q)) @ items (fst (requeue item q)) = items q"
proof -
  let ?q1 = "q\<lparr>processing := set_delete (item_id item) (processing q)\<rparr>"
  let ?item1 = "item\<lparr>attempts := attempts item + 1\<rparr>"
  let ?err = "(''MAX_ATTEMPTS'', ''Exceeded max attempts ('' @ show_int (maxAttempts ?item1) @ '')'')"
  let ?m = "markFailed ?item1 ?err ?q1"
  from assms have r: "requeue item q = (fst (notifyWaiters (fst ?m)), snd ?m @ snd (notifyWaiters (fst ?m)))"
    by (simp add: requeue_def Let_def)
  show "map_of (failed (fst (requeue item q))) (item_id item)
           = Some (item\<lparr>attempts := attempts item + 1, status := S_failed,
                        error := Some (max_attempts_error (maxAttempts item))\<rparr>)"
    unfolding r using map_of_map_set [of "item_id item" _ "failed q"]
    by (simp add: notifyWaiters_frame markFailed_failed max_attempts_error_def)
  have "delivered_items (snd ?m) @ (delivered_items (snd (notifyWaiters (fst ?m)))
          @ items (fst (notifyWaiters (fst ?m)))) = items ?q1"
    unfolding notifyWaiters_split by (rule markFailed_split)
  then show "delivered_items (snd (requeue item q)) @ items (fst (requeue item q)) = items q"
    unfolding r by (simp add: delivered_items_append)
qed

lemma returning_final:
  "run (retry_schedule (item_X uuid f prio)) (returning_pool m) =
     \<lparr>queue = (new_AsyncQueue 1)
         \<lparr>failed := [(uuid, (item_X uuid f prio)
                       \<lparr>status := S_failed,
                        error := Some \<lparr>code = ''UNKNOWN'', message = ''Unknown error'',
                                       recoverable = False\<rparr>\<rparr>)],
          closed := True\<rparr>,
      workers = [Exited],
      results = [\<lparr>queueItem = uuid, success = False, result_outputPath = None, warnings = [m]\<rparr>],
      running = True, workerCount = 1, processor = returning_processor m,
      awaitingCompletion = True\<rparr>"
  by (simp add: retry_schedule_def item_X_def createQueueItem_def returning_pool_def
      returning_processor_def pool_eval)

lemma returning_acquired:
  "acquired (retry_schedule (item_X uuid f prio)) (returning_pool m) = [item_X uuid f prio]"
  by (simp add: retry_schedule_def item_X_def createQueueItem_def returning_pool_def
      returning_processor_def pool_eval)

text \<open>
  Claim C4, as stated, fails for a processor that returns the failure without writing
  \<open>item.error\<close>: the worker loop reads the recoverable flag from \<open>item.error\<close> only, so
  an item with \<open>maxAttempts = 3\<close> is handed out once and then fails with the error code
  \<open>UNKNOWN\<close>, its attempt counter still 0, with a single result recorded.
\<close>

theorem retry_exhaustion_counterexample:
  "acquired (retry_schedule (item_X ''x'' notes_txt 0)) (returning_pool ''failed'')
     = [item_X ''x'' notes_txt 0]
   \<and> maxAttempts (item_X ''x'' notes_txt 0) = 3
   \<and> failed (queue (run (retry_schedule (item_X ''x'' notes_txt 0)) (returning_pool ''failed'')))
       = [(''x'', (item_X ''x'' notes_txt 0)
                   \<lparr>status := S_failed,
                    error := Some \<lparr>code = ''UNKNOWN'', message = ''Unknown error'',
                                   recoverable = False\<rparr>\<rparr>)]
   \<and> results (run (retry_schedule (item_X ''x'' notes_txt 0)) (returning_pool ''failed''))
       = [\<lparr>queueItem = ''x'', success = False, result_outputPath = None, warnings = [''failed'']\<rparr>]"
  by (simp add: returning_final returning_acquired new_AsyncQueue_def)
     (simp add: item_X_def createQueueItem_def)

text \<open>
  Claim C4, amended. An item with \<open>maxAttempts = 3\<close>, in a pool whose processor always
  returns \<open>success: false\<close> and has set \<open>item.error\<close> to an error with
  \<open>recoverable = true\<close> on the item itself, is handed to the worker loop
  exactly three times, with 0, 1 and 2 attempts counted and at its own priority each time;
  afterwards it is in the failed map with status \<open>failed\<close> and error code
  \<open>MAX_ATTEMPTS\<close>, nothing is pending, and whatever happens to the pool from then on, no
  worker loop receives an item again. In general \<open>requeue\<close> adds one to the attempt
  counter; while the new count is below \<open>maxAttempts\<close> the item goes back among the
  pending items (or straight to a waiter) as the stable priority sort places it, with its
  priority unchanged and nothing added to the failed map; otherwise it goes to the failed
  map with the \<open>MAX_ATTEMPTS\<close> error and nothing is added to the pending items.
\<close>

theorem retry_exhaustion:
  "map item_id (acquired (retry_schedule (item_X uuid f prio)) (retry_pool c m)) = [uuid, uuid, uuid]
   \<and> map attempts (acquired (retry_schedule (item_X uuid f prio)) (retry_pool c m)) = [0, 1, 2]
   \<and> map priority (acquired (retry_schedule (item_X uuid f prio)) (retry_pool c m)) = [prio, prio, prio]
   \<and> failed (queue (run (retry_schedule (item_X uuid f prio)) (retry_pool c m)))
       = [(uuid, (item_X uuid f prio)
                   \<lparr>status := S_failed, attempts := 3,
                    error := Some \<lparr>code = ''MAX_ATTEMPTS'', message = ''Exceeded max attempts (3)'',
                                   recoverable = False\<rparr>\<rparr>)]
   \<and> items (queue (run (retry_schedule (item_X uuid f prio)) (retry_pool c m))) = []
   \<and> (\<forall>es. acquired es (run (retry_schedule (item_X uuid f prio)) (retry_pool c m)) = [])
   \<and> (\<forall>item q. attempts item + 1 < maxAttempts item \<longrightarrow>
         delivered_items (snd (requeue item q)) @ items (fst (requeue item q))
           = sort_items (items q @ [item\<lparr>attempts := attempts item + 1, status := S_pending\<rparr>])
         \<and> sorted (map priority (items (fst (requeue item q))))
         \<and> failed (fst (requeue item q)) = failed q)
   \<and> (\<forall>item q. \<not> attempts item + 1 < maxAttempts item \<longrightarrow>
         map_of (failed (fst (requeue item q))) (item_id item)
           = Some (item\<lparr>attempts := attempts item + 1, status := S_failed,
                        error := Some (max_attempts_error (maxAttempts item))\<rparr>)
         \<and> delivered_items (snd (requeue item q)) @ items (fst (requeue item q)) = items q)"
proof -
  have a: "acquired (retry_schedule (item_X uuid f prio)) (retry_pool c m) =
     map (\<lambda>n. attempt c m n (item_X uuid f prio)) [0, 1, 2]"
    by (rule retry_acquired)
  have d: "\<forall>es. acquired es (run (retry_schedule (item_X uuid f prio)) (retry_pool c m)) = []"
    using retry_final_drained [of uuid f prio c m] drained_acquired by blast
  have c1: "map item_id (acquired (retry_schedule (item_X uuid f prio)) (retry_pool c m)) = [uuid, uuid, uuid]"
    and c2: "map attempts (acquired (retry_schedule (item_X uuid f prio)) (retry_pool c m)) = [0, 1, 2]"
    and c3: "map priority (acquired (retry_schedule (item_X uuid f prio)) (retry_pool c m)) = [prio, prio, prio]"
    unfolding a by (simp_all add: attempt_def item_X_def createQueueItem_def)
  have c4: "failed (queue (run (retry_schedule (item_X uuid f prio)) (retry_pool c m)))
       = [(uuid, (item_X uuid f prio)
                   \<lparr>status := S_failed, attempts := 3,
                    error := Some \<lparr>code = ''MAX_ATTEMPTS'', message = ''Exceeded max attempts (3)'',
                                   recoverable = False\<rparr>\<rparr>)]"
    and c5: "items (queue (run (retry_schedule (item_X uuid f prio)) (retry_pool c m))) = []"
    unfolding retry_final by (simp_all add: new_AsyncQueue_def max_attempts_error_def show_int_3)
  have c7: "\<forall>item q. attempts item + 1 < maxAttempts item \<longrightarrow>
         delivered_items (snd (requeue item q)) @ items (fst (requeue item q))
           = sort_items (items q @ [item\<lparr>attempts := attempts item + 1, status := S_pending\<rparr>])
         \<and> sorted (map priority (items (fst (requeue item q))))
         \<and> failed (fst (requeue item q)) = failed q"
    using requeue_retry by blast
  have c8: "\<forall>item q. \<not> attempts item + 1 < maxAttempts item \<longrightarrow>
         map_of (failed (fst (requeue item q))) (item_id item)
           = Some (item\<lparr>attempts := attempts item + 1, status := S_failed,
                        error := Some (max_attempts_error (maxAttempts item))\<rparr>)
         \<and> delivered_items (snd (requeue item q)) @ items (fst (requeue item q)) = items q"
    using requeue_exhausted by blast
  from c1 c2 c3 c4 c5 d c7 c8 show ?thesis by (intro conjI)
qed

theorem retry_exhaustion_witness:
  "attempts (item_X ''x'' notes_txt 0) + 1 < maxAttempts (item_X ''x'' notes_txt 0)
   \<and> items (fst (requeue (item_X ''x'' notes_txt 0) (new_AsyncQueue 1)))
       = [(item_X ''x'' notes_txt 0)\<lparr>attempts := 1, status := S_pending\<rparr>]"
proof -
  let ?x = "item_X ''x'' notes_txt 0"
  let ?q = "new_AsyncQueue 1"
  have h: "attempts ?x + 1 < maxAttempts ?x"
    by (simp add: item_X_def createQueueItem_def)
  have g: "\<And>item q. attempts item + 1 < maxAttempts item \<Longrightarrow>
         delivered_items (snd (requeue item q)) @ items (fst (requeue item q))
           = sort_items (items q @ [item\<lparr>attempts := attempts item + 1, status := S_pending\<rparr>])"
    using retry_exhaustion [of undefined undefined undefined undefined undefined] by blast
  have w: "waiters ?q = []" by (simp add: new_AsyncQueue_def)
  have "snd (requeue ?x ?q) = []"
    using h by (simp add: requeue_def Let_def notifyWaiters_stop new_AsyncQueue_def)
  with g [OF h, of ?q] h show ?thesis
    by (simp add: delivered_items_def List.map_filter_simps sort_items_def new_AsyncQueue_def
        item_X_def createQueueItem_def)
qed

section \<open>A processor that throws\<close>

lemma length_deliver: "length (deliver ds ws) = length ws"
  unfolding deliver_def by (induction ds arbitrary: ws) simp_all

lemma loop_head_queue:
  "queue (loop_head i p) = (if running p then snd (dequeue i (queue p)) else queue p)"
  by (simp add: loop_head_def split: prod.splits dequeue_result.splits)

lemma loop_head_results: "results (loop_head i p) = results p"
  by (simp add: loop_head_def split: prod.splits dequeue_result.splits)

lemma loop_head_worker:
  "i < length (workers p) \<Longrightarrow>
   workers (loop_head i p) ! i =
     (if running p
      then (case fst (dequeue i (queue p)) of Resolved r \<Rightarrow> Settled r | StillPending \<Rightarrow> Suspended)
      else Exited)"
  by (simp add: loop_head_def split: prod.splits dequeue_result.splits)

lemma dequeue_failed: "failed (snd (dequeue i q)) = failed q"
  by (simp add: dequeue_def)

lemma dequeue_drop: "\<exists>k. items (snd (dequeue i q)) = drop k (items q)"
proof (cases "items q \<noteq> [] \<and> length (processing q) < maxConcurrent q \<and> \<not> (closed q \<and> items q = [])")
  case True
  then have "items (snd (dequeue i q)) = drop 1 (items q)"
    by (simp add: dequeue_def drop_Suc)
  then show ?thesis by blast
next
  case False
  then have "items (snd (dequeue i q)) = drop 0 (items q)"
    by (auto simp: dequeue_def)
  then show ?thesis by blast
qed

lemma markFailed_drop: "\<exists>k. items (fst (markFailed item err q)) = drop k (items q)"
  using markFailed_split [of item err q] by (metis append_eq_conv_conj)

lemma loop_head_drop: "\<exists>k. items (queue (loop_head i p)) = drop k (items (queue p))"
proof (cases "running p")
  case True
  then show ?thesis using dequeue_drop [of i "queue p"] by (simp add: loop_head_queue)
next
  case False
  then have "items (queue (loop_head i p)) = drop 0 (items (queue p))"
    by (simp add: loop_head_queue)
  then show ?thesis by blast
qed

lemma finish_rejected:
  assumes "i < length (workers p)" and "workers p ! i = InProcessor item"
    and "processor p item = Rejected msg"
  shows "finish i p =
     loop_head i
       (p\<lparr>queue := fst (markFailed
                  (item\<lparr>error := Some \<lparr>code = ''PROCESSOR_ERROR'', message = msg, recoverable = False\<rparr>\<rparr>)
                  (''PROCESSOR_ERROR'', msg) (queue p)),
          workers := deliver (snd (markFailed
                  (item\<lparr>error := Some \<lparr>code = ''PROCESSOR_ERROR'', message = msg, recoverable = False\<rparr>\<rparr>)
                  (''PROCESSOR_ERROR'', msg) (queue p))) (workers p),
          results := results p @ [\<lparr>queueItem = item_id item, success = False,
                                    result_outputPath = None, warnings = []\<rparr>]\<rparr>)"
  using assms by (simp add: finish_def settle_def update_queue_def Let_def)

lemma processor_exception:
  assumes i: "i < length (workers p)" and w: "workers p ! i = InProcessor item"
    and rej: "processor p item = Rejected msg"
  shows "map_of (failed (queue (finish i p))) (item_id item)
           = Some (item\<lparr>status := S_failed,
                        error := Some \<lparr>code = ''PROCESSOR_ERROR'', message = msg, recoverable = False\<rparr>\<rparr>)"
    and "\<exists>k. items (queue (finish i p)) = drop k (items (queue p))"
    and "results (finish i p) = results p @ [\<lparr>queueItem = item_id item, success = False,
                                    result_outputPath = None, warnings = []\<rparr>]"
    and "running p \<Longrightarrow> workers (finish i p) ! i \<noteq> Exited"
proof -
  let ?item = "item\<lparr>error := Some \<lparr>code = ''PROCESSOR_ERROR'', message = msg, recoverable = False\<rparr>\<rparr>"
  let ?m = "markFailed ?item (''PROCESSOR_ERROR'', msg) (queue p)"
  let ?p = "p\<lparr>queue := fst ?m, workers := deliver (snd ?m) (workers p),
              results := results p @ [\<lparr>queueItem = item_id item, success = False,
                                    result_outputPath = None, warnings = []\<rparr>]\<rparr>"
  have f: "finish i p = loop_head i ?p" using assms by (rule finish_rejected)
  show "map_of (failed (queue (finish i p))) (item_id item)
           = Some (item\<lparr>status := S_failed,
                        error := Some \<lparr>code = ''PROCESSOR_ERROR'', message = msg, recoverable = False\<rparr>\<rparr>)"
    unfolding f using map_of_map_set [of "item_id item" _ "failed (queue p)"]
    by (simp add: loop_head_queue dequeue_failed markFailed_failed)
  obtain k where k: "items (fst ?m) = drop k (items (queue p))"
    using markFailed_drop by blast
  obtain j where j: "items (queue (loop_head i ?p)) = drop j (items (queue ?p))"
    using loop_head_drop by blast
  have "items (queue (finish i p)) = drop (j + k) (items (queue p))"
    unfolding f j using k by simp
  then show "\<exists>k. items (queue (finish i p)) = drop k (items (queue p))" by blast
  show "results (finish i p) = results p @ [\<lparr>queueItem = item_id item, success = False,
                                    result_outputPath = None, warnings = []\<rparr>]"
    unfolding f by (simp add: loop_head_results)
  show "running p \<Longrightarrow> workers (finish i p) ! i \<noteq> Exited"
    unfolding f using i
    by (simp add: loop_head_worker length_deliver split: dequeue_result.splits)
qed

text \<open>
  Claim C9. When the processor call of worker \<open>i\<close> throws, the worker loop puts the item
  into the failed map with status \<open>failed\<close> and the error \<open>PROCESSOR_ERROR\<close>,
  \<open>recoverable = false\<close>, whatever its attempt counter and \<open>maxAttempts\<close> are; the item
  is not put back among the pending items (they only lose items from the front); a result
  with \<open>success = false\<close> is appended; and while the pool is running the loop does not
  end: it has called \<open>dequeue()\<close> again, and if an item is pending, nobody else waits
  and there is capacity, it holds that next item.
\<close>
theorem processor_exception_is_terminal:
  assumes "i < length (workers p)" and "workers p ! i = InProcessor item"
    and "processor p item = Rejected msg"
  shows "map_of (failed (queue (finish i p))) (item_id item)
           = Some (item\<lparr>status := S_failed,
                        error := Some \<lparr>code = ''PROCESSOR_ERROR'', message = msg, recoverable = False\<rparr>\<rparr>)
         \<and> (\<exists>k. items (queue (finish i p)) = drop k (items (queue p)))
         \<and> results (finish i p) = results p @ [\<lparr>queueItem = item_id item, success = False,
                                    result_outputPath = None, warnings = []\<rparr>]
         \<and> (running p \<longrightarrow> workers (finish i p) ! i \<noteq> Exited)
         \<and> (\<forall>nxt rest. running p \<and> waiters (queue p) = [] \<and> items (queue p) = nxt # rest
               \<and> length (set_delete (item_id item) (processing (queue p))) < maxConcurrent (queue p)
               \<longrightarrow> workers (finish i p) ! i = Settled (Some nxt))"
proof -
  have "\<forall>nxt rest. running p \<and> waiters (queue p) = [] \<and> items (queue p) = nxt # rest
               \<and> length (set_delete (item_id item) (processing (queue p))) < maxConcurrent (queue p)
               \<longrightarrow> workers (finish i p) ! i = Settled (Some nxt)"
    using assms(1)
    by (simp add: finish_rejected [OF assms] markFailed_def notifyWaiters_stop deliver_Nil
        loop_head_def dequeue_def)
  with processor_exception [OF assms] show ?thesis by blast
qed

lemma two_items_one_running_eq:
  "two_items_one_running =
     \<lparr>queue = (new_AsyncQueue 1)\<lparr>items := [createQueueItem ''y'' notes_txt no_options],
                                  processing := [''x'']\<rparr>,
      workers = [InProcessor ((createQueueItem ''x'' notes_txt no_options)\<lparr>status := S_processing\<rparr>)],
      results = [], running = True, workerCount = 1,
      processor = throwing_processor ''boom'', awaitingCompletion = False\<rparr>"
  by (simp add: two_items_one_running_def pool_eval createQueueItem_def no_options_def)

theorem processor_exception_is_terminal_witness:
  "0 < length (workers two_items_one_running)
   \<and> workers two_items_one_running ! 0
        = InProcessor ((createQueueItem ''x'' notes_txt no_options)\<lparr>status := S_processing\<rparr>)
   \<and> processor two_items_one_running
        ((createQueueItem ''x'' notes_txt no_options)\<lparr>status := S_processing\<rparr>) = Rejected ''boom''
   \<and> map_of (failed (queue (finish 0 two_items_one_running))) ''x''
        = Some ((createQueueItem ''x'' notes_txt no_options)
                  \<lparr>status := S_failed,
                   error := Some \<lparr>code = ''PROCESSOR_ERROR'', message = ''boom'', recoverable = False\<rparr>\<rparr>)
   \<and> workers (finish 0 two_items_one_running) ! 0
        = Settled (Some (createQueueItem ''y'' notes_txt no_options))"
proof -
  let ?x = "(createQueueItem ''x'' notes_txt no_options)\<lparr>status := S_processing\<rparr>"
  have h1: "0 < length (workers two_items_one_running)"
    and h2: "workers two_items_one_running ! 0 = InProcessor ?x"
    and h3: "processor two_items_one_running ?x = Rejected ''boom''"
    by (simp_all add: two_items_one_running_eq throwing_processor_def)
  have h4: "running two_items_one_running \<and> waiters (queue two_items_one_running) = []
     \<and> items (queue two_items_one_running) = createQueueItem ''y'' notes_txt no_options # []
     \<and> length (set_delete (item_id ?x) (processing (queue two_items_one_running)))
          < maxConcurrent (queue two_items_one_running)"
    by (simp add: two_items_one_running_eq new_AsyncQueue_def createQueueItem_def set_delete_def)
  from processor_exception_is_terminal [OF h1 h2 h3] h4
  have "map_of (failed (queue (finish 0 two_items_one_running))) (item_id ?x)
        = Some (?x\<lparr>status := S_failed,
                   error := Some \<lparr>code = ''PROCESSOR_ERROR'', message = ''boom'', recoverable = False\<rparr>\<rparr>)"
    and "workers (finish 0 two_items_one_running) ! 0
        = Settled (Some (createQueueItem ''y'' notes_txt no_options))"
    by blast+
  with h1 h2 h3 show ?thesis by (simp add: createQueueItem_def)
qed

section \<open>One result per processing attempt\<close>







































section \<open>Flattened output paths\<close>

lemmas path_eval = path_join_def normalize_def normalizeString_def normalize_segments_def slash_def
  isAbsolute_def normalize_step_def relative_def resolve_segments_def dirname_def basename_def
  last_component_def trailing_slashes_def endsWith_def startsWith_def extname_def dot_def
  toLowerCase_def lower_char_def cwd_string_def

lemma course_tree_scan:
  "scanDirectory plain_scanner (Some course_tree) ''/courses/Course1'' ''Course1''
      ''/courses/Course1'' default_ScanOptions = [lesson1_srt, main_cpp]"
  by (simp add: scanDirectory_def course_tree_def plain_scanner_def default_ScanOptions_def
      shouldExclude_def getExtension_def categorizeFile_def FILE_EXTENSIONS_def path_eval
      main_cpp_def lesson1_srt_def)



section \<open>Media files never leave the scanner\<close>

lemma SKIP_EXTENSIONS_eq:
  "SKIP_EXTENSIONS =
     [''.mp4'', ''.mkv'', ''.avi'', ''.mov'', ''.wmv'', ''.flv'', ''.webm'', ''.m4v'', ''.mpeg'',
      ''.mpg'', ''.3gp'', ''.mp3'', ''.wav'', ''.flac'', ''.aac'', ''.ogg'', ''.wma'', ''.m4a'',
      ''.opus'', ''.aiff'']"
  by (simp add: SKIP_EXTENSIONS_def extensions_of_def FILE_EXTENSIONS_def set_add_def)

lemma skip_extensions_are_media:
  "\<forall>e \<in> set SKIP_EXTENSIONS. categorizeFile e = C_video \<or> categorizeFile e = C_audio"
  unfolding SKIP_EXTENSIONS_eq
  by (simp add: categorizeFile_def FILE_EXTENSIONS_def)

lemma scan_ok:
  "list_all scanned_ok (scanRecursive sc opts cid croot cur node)"
  "list_all scanned_ok (scanEntries sc opts cid croot cur entries)"
proof (induction sc opts cid croot cur node and sc opts cid croot cur entries
       rule: scanRecursive_scanEntries.induct)
  case (7 sc opts cid croot currentPath entry node rest)
  then show ?case
    by (cases node) (simp_all add: scanned_ok_def)
qed simp_all

text \<open>
  Claim C7. Whatever the directory tree, the exclude patterns and the options, no file in
  the scanner's output has the category \<open>video\<close> or \<open>audio\<close>, and none has an extension
  of the skip-set.
\<close>
theorem scanner_drops_media:
  "\<forall>f \<in> set (scanDirectory sc root dirPath cid croot opts).
      category f \<noteq> C_video \<and> category f \<noteq> C_audio \<and> extension f \<notin> set SKIP_EXTENSIONS"
proof
  fix f assume f: "f \<in> set (scanDirectory sc root dirPath cid croot opts)"
  have "list_all scanned_ok (scanDirectory sc root dirPath cid croot opts)"
    by (cases root) (simp_all add: scanDirectory_def scan_ok)
  with f have ok: "scanned_ok f" by (simp add: list_all_iff)
  have "extension f \<notin> set SKIP_EXTENSIONS"
  proof
    assume "extension f \<in> set SKIP_EXTENSIONS"
    with skip_extensions_are_media
    have "categorizeFile (extension f) = C_video \<or> categorizeFile (extension f) = C_audio"
      by blast
    with ok show False by (auto simp: scanned_ok_def)
  qed
  with ok show "category f \<noteq> C_video \<and> category f \<noteq> C_audio \<and> extension f \<notin> set SKIP_EXTENSIONS"
    unfolding scanned_ok_def by blast
qed

theorem scanner_drops_media_witness:
  "main_cpp \<in> set (scanDirectory plain_scanner (Some course_tree) ''/courses/Course1'' ''Course1''
                     ''/courses/Course1'' default_ScanOptions)
   \<and> category main_cpp \<noteq> C_video \<and> category main_cpp \<noteq> C_audio
   \<and> extension main_cpp \<notin> set SKIP_EXTENSIONS
   \<and> map name (scanDirectory plain_scanner (Some course_tree) ''/courses/Course1'' ''Course1''
                     ''/courses/Course1'' default_ScanOptions) = [''lesson1.srt'', ''main.cpp'']"
proof -
  have h: "main_cpp \<in> set (scanDirectory plain_scanner (Some course_tree) ''/courses/Course1''
             ''Course1'' ''/courses/Course1'' default_ScanOptions)"
    by (simp add: course_tree_scan)
  from scanner_drops_media [of plain_scanner "Some course_tree" "''/courses/Course1''"
      "''Course1''" "''/courses/Course1''" default_ScanOptions] h
  have "category main_cpp \<noteq> C_video \<and> category main_cpp \<noteq> C_audio
        \<and> extension main_cpp \<notin> set SKIP_EXTENSIONS"
    by blast
  with h show ?thesis by (simp add: course_tree_scan main_cpp_def lesson1_srt_def)
qed

section \<open>The output path depends on its arguments only\<close>

lemma relative_absolute:
  "isAbsolute a \<Longrightarrow> isAbsolute b \<Longrightarrow> relative cwd a b = relative cwd' a b"
  by (simp add: relative_def resolve_segments_def)

lemma dirname_absolute: "isAbsolute p \<Longrightarrow> isAbsolute (dirname p)"
  by (simp add: isAbsolute_def dirname_def Let_def slash_def)

lemma getOutputPath_cwd:
  "isAbsolute (coursePath f) \<Longrightarrow> isAbsolute (path f) \<Longrightarrow>
   getOutputPath cwd f outputDir fmt = getOutputPath cwd' f outputDir fmt"
  using relative_absolute [of "coursePath f" "path f" cwd cwd']
  by (simp add: getOutputPath_def)

lemma FileRouter_getOutputPath_cwd:
  "isAbsolute (coursePath f) \<Longrightarrow> isAbsolute (path f) \<Longrightarrow>
   FileRouter_getOutputPath cwd f decision dir = FileRouter_getOutputPath cwd' f decision dir"
  using relative_absolute [of "coursePath f" "dirname (path f)" cwd cwd'] dirname_absolute [of "path f"]
  by (simp add: FileRouter_getOutputPath_def)

lemma join_with_hd: "a \<noteq> [] \<Longrightarrow> hd (join_with c (a # rest)) = hd a"
  by (cases rest) simp_all

lemma join_with_nonempty: "a \<noteq> [] \<Longrightarrow> join_with c (a # rest) \<noteq> []"
  by (cases rest) simp_all

lemma normalize_absolute: "isAbsolute p \<Longrightarrow> isAbsolute (normalize p)"
  by (simp add: normalize_def isAbsolute_def Let_def slash_def)

lemma path_join_absolute: "isAbsolute a \<Longrightarrow> isAbsolute (path_join [a, b])"
proof -
  assume a: "isAbsolute a"
  then have ne: "a \<noteq> []" by (simp add: isAbsolute_def)
  have "isAbsolute (join_with slash (a # filter (\<lambda>x. x \<noteq> []) [b]))"
    using a ne join_with_hd [OF ne, of slash] join_with_nonempty [OF ne, of slash]
    by (simp add: isAbsolute_def)
  then show ?thesis
    using ne by (simp add: path_join_def normalize_absolute)
qed

lemma scan_absolute:
  "isAbsolute cur \<Longrightarrow> list_all (scanned_absolute croot) (scanRecursive sc opts cid croot cur node)"
  "isAbsolute cur \<Longrightarrow> list_all (scanned_absolute croot) (scanEntries sc opts cid croot cur entries)"
proof (induction sc opts cid croot cur node and sc opts cid croot cur entries
       rule: scanRecursive_scanEntries.induct)
  case (7 sc opts cid croot currentPath entry node rest)
  then show ?case
    by (cases node) (simp_all add: scanned_absolute_def path_join_absolute)
qed simp_all

text \<open>
  Claim C8. Both output path resolvers are functions of their arguments and of nothing else
  but the working directory of the process, which \<open>path.relative\<close> consults: two calls with
  the same file, destination and format under the same working directory return the same
  string, and when the file's path and course path are absolute, as they are for every
  file scanned from an absolute course directory, the result is the same under any two
  working directories.
\<close>
theorem output_path_deterministic:
  "((cwd = cwd' \<or> (isAbsolute (coursePath f) \<and> isAbsolute (path f)))
     \<longrightarrow> getOutputPath cwd f outputDir fmt = getOutputPath cwd' f outputDir fmt
         \<and> FileRouter_getOutputPath cwd f decision outputDir
             = FileRouter_getOutputPath cwd' f decision outputDir)
   \<and> (isAbsolute dirPath \<and> isAbsolute croot
        \<longrightarrow> (\<forall>g \<in> set (scanDirectory sc root dirPath cid croot opts).
               isAbsolute (path g) \<and> isAbsolute (coursePath g)))"
proof -
  have "isAbsolute dirPath \<and> isAbsolute croot
        \<longrightarrow> (\<forall>g \<in> set (scanDirectory sc root dirPath cid croot opts).
               isAbsolute (path g) \<and> isAbsolute (coursePath g))"
  proof (cases root)
    case None
    then show ?thesis by (simp add: scanDirectory_def)
  next
    case (Some node)
    then show ?thesis
      using scan_absolute(1) [of dirPath croot sc opts cid node]
      by (auto simp: scanDirectory_def list_all_iff scanned_absolute_def)
  qed
  with getOutputPath_cwd [of f cwd outputDir fmt cwd']
    FileRouter_getOutputPath_cwd [of f cwd decision outputDir cwd']
  show ?thesis by blast
qed

theorem output_path_deterministic_witness:
  "isAbsolute (coursePath main_cpp) \<and> isAbsolute (path main_cpp)
   \<and> getOutputPath [''home'', ''alice''] main_cpp ''out/'' (Some ''.md'')
       = getOutputPath [''tmp''] main_cpp ''out/'' (Some ''.md'')
   \<and> FileRouter_getOutputPath [''home'', ''alice''] main_cpp (getRoutingDecision ''.cpp'') ''out/''
       = FileRouter_getOutputPath [''tmp''] main_cpp (getRoutingDecision ''.cpp'') ''out/''"
proof -
  have h: "isAbsolute (coursePath main_cpp) \<and> isAbsolute (path main_cpp)"
    by (simp add: main_cpp_def isAbsolute_def slash_def)
  with output_path_deterministic [of "[''home'', ''alice'']" "[''tmp'']" main_cpp "''out/''"
      "Some ''.md''" "getRoutingDecision ''.cpp''" "''/''" "''/''"]
  show ?thesis by blast
qed

section \<open>Unsupported files are not queued\<close>

lemma lower_char_dot: "lower_char dot = dot"
  by (simp add: lower_char_def dot_def)

lemma toLowerCase_is_extension: "is_extension e \<Longrightarrow> is_extension (toLowerCase e)"
  by (cases e) (simp_all add: is_extension_def toLowerCase_def lower_char_dot)

lemma extname_is_extension: "is_extension (extname p)"
  by (simp add: extname_def is_extension_def Let_def)

lemma getExtension_is_extension: "is_extension (getExtension filename)"
proof (cases "find (\<lambda>ext. endsWith (toLowerCase filename) ext) [''.tar.gz'', ''.tar.bz2'', ''.tar.xz'']")
  case None
  then show ?thesis
    by (simp add: getExtension_def toLowerCase_is_extension extname_is_extension)
next
  case (Some ext)
  then have "ext = ''.tar.gz'' \<or> ext = ''.tar.bz2'' \<or> ext = ''.tar.xz''"
    by (auto split: if_splits)
  then have "is_extension ext" by (auto simp: is_extension_def dot_def)
  with Some show ?thesis by (simp add: getExtension_def)
qed

lemma prototype_keys_not_extensions: "k \<in> set object_prototype_keys \<Longrightarrow> \<not> is_extension k"
  by (auto simp: object_prototype_keys_def is_extension_def dot_def)

lemma SKILL_MAPPINGS_get_None:
  "is_extension ext \<Longrightarrow> ext \<notin> fst ` set SKILL_MAPPINGS \<Longrightarrow> SKILL_MAPPINGS_get ext = None"
proof -
  assume e: "is_extension ext" and n: "ext \<notin> fst ` set SKILL_MAPPINGS"
  from n have "map_of SKILL_MAPPINGS ext = None" by (simp add: map_of_eq_None_iff)
  moreover from e have "ext \<notin> set object_prototype_keys"
    using prototype_keys_not_extensions by blast
  ultimately show ?thesis by (simp add: SKILL_MAPPINGS_get_def)
qed

lemma SKILL_MAPPINGS_get_Some:
  "ext \<in> fst ` set SKILL_MAPPINGS \<Longrightarrow> \<exists>m. SKILL_MAPPINGS_get ext = Some m"
  by (cases "map_of SKILL_MAPPINGS ext") (auto simp: SKILL_MAPPINGS_get_def map_of_eq_None_iff)

lemma route_unsupported:
  assumes "is_extension e" and "toLowerCase e \<notin> set SKIP_EXTENSIONS"
    and "toLowerCase e \<notin> set TEXT_EXTENSIONS" and "toLowerCase e \<notin> fst ` set SKILL_MAPPINGS"
  shows "routing_method (getRoutingDecision e) = M_unsupported"
  using assms SKILL_MAPPINGS_get_None [OF toLowerCase_is_extension [OF assms(1)] assms(4)]
  by (simp add: getRoutingDecision_def Let_def)

lemma route_skip:
  "toLowerCase e \<in> set SKIP_EXTENSIONS \<Longrightarrow> routing_method (getRoutingDecision e) = M_skip"
  by (simp add: getRoutingDecision_def Let_def)

lemma route_passthrough:
  "toLowerCase e \<notin> set SKIP_EXTENSIONS \<Longrightarrow> toLowerCase e \<in> set TEXT_EXTENSIONS
   \<Longrightarrow> routing_method (getRoutingDecision e) = M_passthrough"
  by (simp add: getRoutingDecision_def Let_def)

lemma route_skill:
  assumes "toLowerCase e \<notin> set SKIP_EXTENSIONS" and "toLowerCase e \<notin> set TEXT_EXTENSIONS"
    and "toLowerCase e \<in> fst ` set SKILL_MAPPINGS"
  shows "routing_method (getRoutingDecision e) = M_skill
         \<or> routing_method (getRoutingDecision e) = M_archive"
proof -
  from SKILL_MAPPINGS_get_Some [OF assms(3)] obtain m
    where "SKILL_MAPPINGS_get (toLowerCase e) = Some m" by blast
  with assms(1,2) show ?thesis by (simp add: getRoutingDecision_def Let_def)
qed

lemma queueItems_accepted:
  "item \<in> set (fst (processCourse_queueItems cwd uuid n v files)) \<Longrightarrow>
   item_file item \<in> set files
   \<and> routing_method (routeByExtension (item_file item)) \<noteq> M_unsupported
   \<and> routing_method (routeByExtension (item_file item)) \<noteq> M_skip
   \<and> routedTo item = Some (routeByExtension (item_file item))"
proof (induction files arbitrary: n)
  case Nil
  then show ?case by simp
next
  case (Cons f fs)
  show ?case
  proof (cases "routing_method (routeByExtension f) = M_unsupported
                \<or> routing_method (routeByExtension f) = M_skip")
    case True
    with Cons.prems have "item \<in> set (fst (processCourse_queueItems cwd uuid n v fs))"
      by (auto simp: case_prod_beta)
    from Cons.IH [OF this] show ?thesis by simp
  next
    case False
    with Cons.prems have "item = (createQueueItem (uuid n) f
                    \<lparr>opt_stage = Some G_convert, opt_priority = None, opt_maxAttempts = None\<rparr>)
                   \<lparr>routedTo := Some (routeByExtension f),
                    outputPath := Some (getOutputPath cwd f v (outputFormat (routeByExtension f)))\<rparr>
        \<or> item \<in> set (fst (processCourse_queueItems cwd uuid (Suc n) v fs))"
      by (auto simp: case_prod_beta)
    then show ?thesis
    proof
      assume "item = (createQueueItem (uuid n) f
                    \<lparr>opt_stage = Some G_convert, opt_priority = None, opt_maxAttempts = None\<rparr>)
                   \<lparr>routedTo := Some (routeByExtension f),
                    outputPath := Some (getOutputPath cwd f v (outputFormat (routeByExtension f)))\<rparr>"
      with False show ?thesis by (simp add: createQueueItem_def)
    next
      assume "item \<in> set (fst (processCourse_queueItems cwd uuid (Suc n) v fs))"
      from Cons.IH [OF this] show ?thesis by simp
    qed
  qed
qed

lemma unsupported_logged:
  "f \<in> set files \<Longrightarrow> routing_method (routeByExtension f) = M_unsupported \<Longrightarrow>
   (''Unsupported file type: '' @ extension f, path f)
      \<in> set (snd (processCourse_queueItems cwd uuid n v files))"
proof (induction files arbitrary: n)
  case Nil
  then show ?case by simp
next
  case (Cons g fs)
  show ?case
  proof (cases "f = g")
    case True
    with Cons.prems show ?thesis by (simp add: case_prod_beta)
  next
    case False
    with Cons.prems have "f \<in> set fs" by simp
    from Cons.IH [OF this Cons.prems(2)] show ?thesis by (simp add: case_prod_beta)
  qed
qed

lemma TEXT_EXTENSIONS_eq:
  "TEXT_EXTENSIONS = extensions_of C_text @ extensions_of C_code"
  by (simp add: TEXT_EXTENSIONS_def extensions_of_def FILE_EXTENSIONS_def set_add_def)

lemma xyz_in_no_table:
  "is_extension ''.xyz'' \<and> toLowerCase ''.xyz'' \<notin> set SKIP_EXTENSIONS
   \<and> toLowerCase ''.xyz'' \<notin> set TEXT_EXTENSIONS
   \<and> toLowerCase ''.xyz'' \<notin> fst ` set SKILL_MAPPINGS"
  by (simp add: is_extension_def dot_def toLowerCase_def lower_char_def SKIP_EXTENSIONS_eq
      TEXT_EXTENSIONS_eq extensions_of_def FILE_EXTENSIONS_def SKILL_MAPPINGS_def)

text \<open>
  Claim C6. An extension (the empty string or a string starting with a dot, as
  \<open>getExtension\<close> always returns) whose lower-case form is in none of the skip-set, the
  text/code set and the skill table is routed to \<open>unsupported\<close>. The tables are consulted
  in this order: skip-set, then text/code set (\<open>passthrough\<close>), then skill table
  (\<open>skill\<close> or \<open>archive\<close>). The queue items that \<open>processCourse\<close> builds for
  \<open>submitMany\<close> all belong to files of the course whose decision is neither
  \<open>unsupported\<close> nor \<open>skip\<close>, and carry that decision; a file whose decision is
  \<open>unsupported\<close> is the file of none of them and has its warning in the error log.
\<close>
theorem unsupported_never_queued:
  "(is_extension e \<and> toLowerCase e \<notin> set SKIP_EXTENSIONS \<and> toLowerCase e \<notin> set TEXT_EXTENSIONS
      \<and> toLowerCase e \<notin> fst ` set SKILL_MAPPINGS
      \<longrightarrow> routing_method (getRoutingDecision e) = M_unsupported)
   \<and> (toLowerCase e \<in> set SKIP_EXTENSIONS \<longrightarrow> routing_method (getRoutingDecision e) = M_skip)
   \<and> (toLowerCase e \<notin> set SKIP_EXTENSIONS \<and> toLowerCase e \<in> set TEXT_EXTENSIONS
        \<longrightarrow> routing_method (getRoutingDecision e) = M_passthrough)
   \<and> (toLowerCase e \<notin> set SKIP_EXTENSIONS \<and> toLowerCase e \<notin> set TEXT_EXTENSIONS
        \<and> toLowerCase e \<in> fst ` set SKILL_MAPPINGS
        \<longrightarrow> routing_method (getRoutingDecision e) = M_skill
            \<or> routing_method (getRoutingDecision e) = M_archive)
   \<and> is_extension (getExtension filename)
   \<and> (\<forall>item \<in> set (fst (processCourse_queueItems cwd uuid n dir files)).
         item_file item \<in> set files
         \<and> routing_method (routeByExtension (item_file item)) \<noteq> M_unsupported
         \<and> routing_method (routeByExtension (item_file item)) \<noteq> M_skip
         \<and> routedTo item = Some (routeByExtension (item_file item)))
   \<and> (\<forall>f \<in> set files. routing_method (routeByExtension f) = M_unsupported \<longrightarrow>
         f \<notin> item_file ` set (fst (processCourse_queueItems cwd uuid n dir files))
         \<and> (''Unsupported file type: '' @ extension f, path f)
              \<in> set (snd (processCourse_queueItems cwd uuid n dir files)))"
proof -
  have a: "\<forall>item \<in> set (fst (processCourse_queueItems cwd uuid n dir files)).
         item_file item \<in> set files
         \<and> routing_method (routeByExtension (item_file item)) \<noteq> M_unsupported
         \<and> routing_method (routeByExtension (item_file item)) \<noteq> M_skip
         \<and> routedTo item = Some (routeByExtension (item_file item))"
    using queueItems_accepted by blast
  have b: "\<forall>f \<in> set files. routing_method (routeByExtension f) = M_unsupported \<longrightarrow>
         f \<notin> item_file ` set (fst (processCourse_queueItems cwd uuid n dir files))
         \<and> (''Unsupported file type: '' @ extension f, path f)
              \<in> set (snd (processCourse_queueItems cwd uuid n dir files))"
    using a unsupported_logged by blast
  from a b route_unsupported [of e] route_skip [of e] route_passthrough [of e] route_skill [of e]
    getExtension_is_extension [of filename]
  show ?thesis by blast
qed

theorem unsupported_never_queued_witness:
  "is_extension ''.xyz'' \<and> toLowerCase ''.xyz'' \<notin> set SKIP_EXTENSIONS
   \<and> toLowerCase ''.xyz'' \<notin> set TEXT_EXTENSIONS
   \<and> toLowerCase ''.xyz'' \<notin> fst ` set SKILL_MAPPINGS
   \<and> routing_method (getRoutingDecision ''.xyz'') = M_unsupported
   \<and> data_xyz \<in> set [main_cpp, data_xyz]
   \<and> data_xyz \<notin> item_file ` set (fst (processCourse_queueItems [] (\<lambda>n. show_nat n) 0 ''out''
                                          [main_cpp, data_xyz]))
   \<and> (''Unsupported file type: .xyz'', ''/courses/Course1/data.xyz'')
        \<in> set (snd (processCourse_queueItems [] (\<lambda>n. show_nat n) 0 ''out'' [main_cpp, data_xyz]))"
proof -
  note t = unsupported_never_queued [of "''.xyz''" undefined "[]" "\<lambda>n. show_nat n" 0 "''out''"
      "[main_cpp, data_xyz]"]
  have u: "routing_method (getRoutingDecision ''.xyz'') = M_unsupported"
    using t xyz_in_no_table by blast
  then have r: "routing_method (routeByExtension data_xyz) = M_unsupported"
    by (simp add: routeByExtension_def data_xyz_def)
  have m: "data_xyz \<in> set [main_cpp, data_xyz]" by simp
  from t m r
  have "data_xyz \<notin> item_file ` set (fst (processCourse_queueItems [] (\<lambda>n. show_nat n) 0 ''out''
                                          [main_cpp, data_xyz]))
        \<and> (''Unsupported file type: '' @ extension data_xyz, path data_xyz)
             \<in> set (snd (processCourse_queueItems [] (\<lambda>n. show_nat n) 0 ''out''
                           [main_cpp, data_xyz]))"
    by blast
  with u m xyz_in_no_table show ?thesis by (simp add: data_xyz_def)
qed

end
